theory Spec2Isabelle
  imports Complex_Main "HOL-Library.Word"
begin

unbundle bit_operations_syntax

section \<open>Strings of the article curation pipeline\<close>

text \<open>
  The pipeline of \<^verbatim>\<open>templates/deduplicate.js\<close> and of the article selection
  template compares and scores text. A JavaScript string is modelled as a \<^typ>\<open>string\<close>
  whose characters are the code units U+0000 to U+00FF; on this alphabet the built-in
  string methods used by the source are written out below. JavaScript numbers are
  modelled by exact rationals: similarity values, thresholds, weights and scores are
  of type \<^typ>\<open>rat\<close>, and the not-a-number value is written out where the source
  can produce it.
\<close>

definition code :: "char \<Rightarrow> nat" where
  "code c = of_char c"

text \<open>\<^verbatim>\<open>String.prototype.toLowerCase\<close> on the alphabet: A-Z and the upper-case
  letters U+00C0 to U+00DE (without the multiplication sign U+00D7) move up by 32.\<close>

definition lowerChar :: "char \<Rightarrow> char" where
  "lowerChar c =
     (let n = code c
      in if (65 \<le> n \<and> n \<le> 90) \<or> (192 \<le> n \<and> n \<le> 222 \<and> n \<noteq> 215)
         then char_of (n + 32) else c)"

definition toLowerCase :: "string \<Rightarrow> string" where
  "toLowerCase s = map lowerChar s"

text \<open>The regular expression class \<^verbatim>\<open>\w\<close>: ASCII letters, digits and the underscore.\<close>

definition isWordChar :: "char \<Rightarrow> bool" where
  "isWordChar c =
     (let n = code c
      in (48 \<le> n \<and> n \<le> 57) \<or> (65 \<le> n \<and> n \<le> 90) \<or> (97 \<le> n \<and> n \<le> 122) \<or> n = 95)"

text \<open>The class \<^verbatim>\<open>\s\<close> (also what \<^verbatim>\<open>trim\<close> strips): tab, line feed, vertical tab,
  form feed, carriage return, space and the no-break space U+00A0.\<close>

definition isSpace :: "char \<Rightarrow> bool" where
  "isSpace c = (let n = code c in (9 \<le> n \<and> n \<le> 13) \<or> n = 32 \<or> n = 160)"

text \<open>\<^verbatim>\<open>.replace(/[^\w\s]/g, ' ')\<close>\<close>

definition replaceNonWord :: "string \<Rightarrow> string" where
  "replaceNonWord s = map (\<lambda>c. if isWordChar c \<or> isSpace c then c else CHR '' '') s"

text \<open>\<^verbatim>\<open>.replace(/\s+/g, ' ')\<close>: every maximal run of white space becomes one space.
  The flag says that the previous character belonged to a run.\<close>

fun collapseRuns :: "bool \<Rightarrow> string \<Rightarrow> string" where
  "collapseRuns inRun [] = []"
| "collapseRuns inRun (c # cs) =
     (if isSpace c
      then (if inRun then collapseRuns True cs else CHR '' '' # collapseRuns True cs)
      else c # collapseRuns False cs)"

definition collapseWhitespace :: "string \<Rightarrow> string" where
  "collapseWhitespace s = collapseRuns False s"

definition trim :: "string \<Rightarrow> string" where
  "trim s = rev (dropWhile isSpace (rev (dropWhile isSpace s)))"

text \<open>\<^verbatim>\<open>str.split(sep)\<close> for a one-character separator: the empty string splits into
  one empty piece, and adjacent separators give empty pieces.\<close>

fun split :: "char \<Rightarrow> string \<Rightarrow> string list" where
  "split sep [] = [[]]"
| "split sep (c # cs) =
     (case split sep cs of
        [] \<Rightarrow> (if c = sep then [[], []] else [[c]])
      | w # ws \<Rightarrow> (if c = sep then [] # w # ws else (c # w) # ws))"

subsection \<open>Text Normalizer: titles and content\<close>

text \<open>\<^verbatim>\<open>normalizeTitle(title)\<close>, deduplicate.js lines 198-207. The argument is
  \<open>None\<close> for an absent (undefined or null) value; \<^verbatim>\<open>!title\<close> holds for an absent
  value and for the empty string.\<close>

definition normalizeTitle :: "string option \<Rightarrow> string" where
  "normalizeTitle title =
     (case title of
        None \<Rightarrow> []
      | Some t \<Rightarrow>
          if t = [] then []
          else take 100 (trim (collapseWhitespace (replaceNonWord (toLowerCase t)))))"

text \<open>\<^verbatim>\<open>normalizeContent(content)\<close>, lines 214-223.\<close>

definition normalizeContent :: "string option \<Rightarrow> string" where
  "normalizeContent content =
     (case content of
        None \<Rightarrow> []
      | Some t \<Rightarrow>
          if t = [] then []
          else take 500 (trim (collapseWhitespace (replaceNonWord (toLowerCase t)))))"

section \<open>Similarity Engine\<close>

subsection \<open>Edit distance\<close>

text \<open>
  \<^verbatim>\<open>levenshteinDistance(str1, str2)\<close>, lines 321-349, fills a matrix with one row for
  every prefix of \<open>str2\<close> and one column for every prefix of \<open>str1\<close>. \<open>fillRow\<close> is the
  inner loop over \<open>j\<close>: it walks \<open>str1\<close> together with the previous row and carries the
  cell just written (\<open>matrix[i][j - 1]\<close>). \<open>fillRows\<close> is the outer loop over \<open>i\<close>.
\<close>

fun fillRow :: "char \<Rightarrow> string \<Rightarrow> nat list \<Rightarrow> nat \<Rightarrow> nat list" where
  "fillRow c (d # ds) (diag # up # prev) left =
     (let v = (if c = d then diag else min (diag + 1) (min (left + 1) (up + 1)))
      in v # fillRow c ds (up # prev) v)"
| "fillRow c ds prev left = []"

fun fillRows :: "string \<Rightarrow> string \<Rightarrow> nat list \<Rightarrow> nat \<Rightarrow> nat list" where
  "fillRows str1 [] row i = row"
| "fillRows str1 (c # cs) row i = fillRows str1 cs (Suc i # fillRow c str1 row (Suc i)) (Suc i)"

definition levenshteinDistance :: "string \<Rightarrow> string \<Rightarrow> nat" where
  "levenshteinDistance str1 str2 = last (fillRows str1 str2 [0 ..< Suc (length str1)] 0)"

subsection \<open>String, URL, title and content similarity\<close>

text \<open>\<^verbatim>\<open>calculateStringSimilarity\<close>, lines 304-313.\<close>

definition calculateStringSimilarity :: "string \<Rightarrow> string \<Rightarrow> rat" where
  "calculateStringSimilarity str1 str2 =
     (if str1 = [] \<or> str2 = [] then 0
      else if str1 = str2 then 1
      else let maxLength = max (length str1) (length str2)
           in if maxLength = 0 then 1
              else 1 - of_nat (levenshteinDistance str1 str2) / of_nat maxLength)"

text \<open>\<^verbatim>\<open>url.split('/')[2] || ''\<close>: the third piece, or the empty string when there is
  none.\<close>

definition domainOf :: "string \<Rightarrow> string" where
  "domainOf url = (let parts = split CHR ''/'' url in if 2 < length parts then parts ! 2 else [])"

text \<open>\<^verbatim>\<open>calculateUrlSimilarity\<close>, lines 231-246.\<close>

definition calculateUrlSimilarity :: "string \<Rightarrow> string \<Rightarrow> rat" where
  "calculateUrlSimilarity url1 url2 =
     (if url1 = [] \<or> url2 = [] then 0
      else if url1 = url2 then 1
      else if domainOf url1 \<noteq> domainOf url2 then 1 / 10
      else calculateStringSimilarity url1 url2)"

text \<open>The word sets of \<^verbatim>\<open>calculateTitleSimilarity\<close> and \<^verbatim>\<open>calculateContentSimilarity\<close>:
  \<^verbatim>\<open>new Set(s.split(' ').filter(word => word.length > n))\<close>, kept as a duplicate-free
  list.\<close>

definition wordSet :: "nat \<Rightarrow> string \<Rightarrow> string list" where
  "wordSet n s = remdups (filter (\<lambda>word. n < length word) (split CHR '' '' s))"

definition intersection :: "string list \<Rightarrow> string list \<Rightarrow> string list" where
  "intersection words1 words2 = filter (\<lambda>word. word \<in> set words2) words1"

definition union :: "string list \<Rightarrow> string list \<Rightarrow> string list" where
  "union words1 words2 = remdups (words1 @ words2)"

definition jaccardSimilarity :: "string list \<Rightarrow> string list \<Rightarrow> rat" where
  "jaccardSimilarity words1 words2 =
     of_nat (length (intersection words1 words2)) / of_nat (length (union words1 words2))"

text \<open>\<^verbatim>\<open>calculateTitleSimilarity\<close>, lines 254-274.\<close>

definition calculateTitleSimilarity :: "string \<Rightarrow> string \<Rightarrow> rat" where
  "calculateTitleSimilarity title1 title2 =
     (if title1 = [] \<or> title2 = [] then 0
      else if title1 = title2 then 1
      else let words1 = wordSet 2 title1; words2 = wordSet 2 title2
           in if length (union words1 words2) = 0 then 0
              else max (jaccardSimilarity words1 words2) (calculateStringSimilarity title1 title2))"

text \<open>\<^verbatim>\<open>calculateContentSimilarity\<close>, lines 282-296.\<close>

definition calculateContentSimilarity :: "string \<Rightarrow> string \<Rightarrow> rat" where
  "calculateContentSimilarity content1 content2 =
     (if content1 = [] \<or> content2 = [] then 0
      else if content1 = content2 then 1
      else let words1 = wordSet 3 content1; words2 = wordSet 3 content2
           in if length (union words1 words2) = 0 then 0
              else jaccardSimilarity words1 words2)"

section \<open>Built-ins of the JavaScript runtime\<close>

text \<open>
  The source calls four built-ins whose behaviour is fixed by the runtime and not by
  this repository: the \<^verbatim>\<open>URL\<close> constructor with its \<^verbatim>\<open>searchParams\<close>, and
  \<^verbatim>\<open>parseFloat\<close> and \<^verbatim>\<open>parseInt\<close>. They are parameters of the model. A parsed URL
  offers what \<^verbatim>\<open>normalizeUrl\<close> reads: \<^verbatim>\<open>origin\<close>, \<^verbatim>\<open>pathname\<close> and the list of
  query parameters. \<open>newURL\<close> gives \<open>None\<close> where the constructor throws;
  \<open>parseFloat\<close> and \<open>parseInt\<close> give \<open>None\<close> for NaN.
\<close>

record urlObj =
  origin :: string
  pathname :: string
  searchParams :: "(string \<times> string) list"

record runtime =
  newURL :: "string \<Rightarrow> urlObj option"
  paramsToString :: "(string \<times> string) list \<Rightarrow> string"
  parseFloat :: "string \<Rightarrow> rat option"
  parseInt :: "string \<Rightarrow> int option"

text \<open>Environment variables: \<open>None\<close> for a variable that is not set.\<close>

type_synonym vars = "string \<Rightarrow> string option"

text \<open>\<^verbatim>\<open>parseFloat(vars.X) || d\<close> and \<^verbatim>\<open>parseInt(vars.X) || d\<close>: an unset variable
  parses to NaN, and NaN and 0 are falsy.\<close>

definition floatOr :: "runtime \<Rightarrow> string option \<Rightarrow> rat \<Rightarrow> rat" where
  "floatOr rt v d =
     (case v of
        None \<Rightarrow> d
      | Some s \<Rightarrow> (case parseFloat rt s of None \<Rightarrow> d | Some x \<Rightarrow> if x = 0 then d else x))"

definition intOr :: "runtime \<Rightarrow> string option \<Rightarrow> int \<Rightarrow> int" where
  "intOr rt v d =
     (case v of
        None \<Rightarrow> d
      | Some s \<Rightarrow> (case parseInt rt s of None \<Rightarrow> d | Some x \<Rightarrow> if x = 0 then d else x))"

text \<open>\<^verbatim>\<open>arr.slice(0, n)\<close>: a negative \<open>n\<close> counts from the end.\<close>

definition sliceTo :: "int \<Rightarrow> 'a list \<Rightarrow> 'a list" where
  "sliceTo n xs = (if 0 \<le> n then take (nat n) xs else take (length xs - nat (- n)) xs)"

subsection \<open>Text Normalizer: URLs\<close>

definition trackingParams :: "string list" where
  "trackingParams =
     [''utm_source'', ''utm_medium'', ''utm_campaign'', ''utm_content'', ''utm_term'',
      ''fbclid'', ''gclid'', ''ref'', ''referrer'', ''source'', ''campaign'']"

text \<open>\<^verbatim>\<open>.replace(/\/$/, '')\<close>\<close>

definition stripTrailingSlash :: "string \<Rightarrow> string" where
  "stripTrailingSlash s = (if s \<noteq> [] \<and> last s = CHR ''/'' then butlast s else s)"

text \<open>\<^verbatim>\<open>.replace(/[?#].*$/, '')\<close>: the dot does not match a line terminator, so the
  cut is at the first \<open>?\<close> or \<open>#\<close> that has none after it.\<close>

definition isLineTerminator :: "char \<Rightarrow> bool" where
  "isLineTerminator c = (code c = 10 \<or> code c = 13)"

fun stripQuery :: "string \<Rightarrow> string" where
  "stripQuery [] = []"
| "stripQuery (c # cs) =
     (if (c = CHR ''?'' \<or> c = CHR ''#'') \<and> \<not> list_ex isLineTerminator cs then []
      else c # stripQuery cs)"

text \<open>\<^verbatim>\<open>normalizeUrl(url)\<close>, lines 158-191. The \<^verbatim>\<open>catch\<close> branch is the case in which
  the constructor throws.\<close>

definition normalizeUrl :: "runtime \<Rightarrow> string option \<Rightarrow> string" where
  "normalizeUrl rt url =
     (case url of
        None \<Rightarrow> []
      | Some u \<Rightarrow>
          if u = [] then []
          else (case newURL rt u of
                  Some urlObj \<Rightarrow>
                    (let remaining = filter (\<lambda>(k, v). k \<notin> set trackingParams) (searchParams urlObj);
                         normalized = origin urlObj @ pathname urlObj;
                         query = paramsToString rt remaining;
                         normalized = (if query \<noteq> [] then normalized @ ''?'' @ query else normalized)
                     in toLowerCase (stripTrailingSlash normalized))
                | None \<Rightarrow> stripTrailingSlash (stripQuery (toLowerCase u))))"

section \<open>Deduplicator\<close>

text \<open>
  An article as the source adapters emit it: title and URL are strings, checked to be
  present before the article reaches the Deduplicator; the other text fields are
  strings, empty when the adapter had nothing. \<open>publishedAt\<close> is the time value of
  \<^verbatim>\<open>new Date(article.publishedAt)\<close> in milliseconds, \<open>None\<close> for an invalid date,
  whose time value is NaN. \<open>deduplicationInfo\<close> is the metadata the Deduplicator
  attaches to an accepted article; its wall-clock stamp \<^verbatim>\<open>processedAt\<close> is left out.
\<close>

record dedupInfo =
  originalIndex :: nat
  normalizedUrl :: "string option"
  normalizedTitle :: "string option"

record article =
  title :: string
  description :: string
  content :: string
  url :: string
  source :: string
  publishedAt :: "int option"
  deduplicationInfo :: "dedupInfo option"

record dedupConfig =
  urlSimilarityThreshold :: rat
  titleSimilarityThreshold :: rat
  dedupMaxArticles :: int
  enableUrlDedup :: bool
  enableTitleDedup :: bool
  enableContentDedup :: bool
  contentSimilarityThreshold :: rat

text \<open>\<^verbatim>\<open>loadDeduplicationConfig(vars)\<close>, lines 51-61; the field \<open>dedupMaxArticles\<close> is the
  source's \<^verbatim>\<open>maxArticles\<close> of this configuration object.\<close>

definition loadDeduplicationConfig :: "runtime \<Rightarrow> vars \<Rightarrow> dedupConfig" where
  "loadDeduplicationConfig rt vars =
     \<lparr> urlSimilarityThreshold = floatOr rt (vars ''URL_SIMILARITY_THRESHOLD'') (8 / 10),
       titleSimilarityThreshold = floatOr rt (vars ''TITLE_SIMILARITY_THRESHOLD'') (7 / 10),
       dedupMaxArticles = intOr rt (vars ''MAX_ARTICLES_AFTER_DEDUP'') 20,
       enableUrlDedup = (vars ''ENABLE_URL_DEDUP'' \<noteq> Some ''false''),
       enableTitleDedup = (vars ''ENABLE_TITLE_DEDUP'' \<noteq> Some ''false''),
       enableContentDedup = (vars ''ENABLE_CONTENT_DEDUP'' = Some ''true''),
       contentSimilarityThreshold = floatOr rt (vars ''CONTENT_SIMILARITY_THRESHOLD'') (9 / 10) \<rparr>"

text \<open>\<^verbatim>\<open>simpleHash(str)\<close>, lines 356-367: \<^verbatim>\<open>hash & hash\<close> brings the value back to 32
  bits after every character.\<close>

definition simpleHash :: "string \<Rightarrow> 32 word" where
  "simpleHash str = foldl (\<lambda>hash c. (push_bit 5 hash - hash) + of_nat (code c)) 0 str"

text \<open>The state of the loop of \<^verbatim>\<open>performDeduplication\<close>, lines 70-73. The two sets are
  kept as lists in insertion order.\<close>

record dedupState =
  uniqueArticles :: "article list"
  seenUrls :: "string list"
  seenTitleHashes :: "32 word list"
  processedTitles :: "string list"

text \<open>Lines 79-97: the URL check. The result is the flag \<open>isDuplicate\<close> and the state.\<close>

definition urlCheck :: "runtime \<Rightarrow> dedupConfig \<Rightarrow> dedupState \<Rightarrow> article \<Rightarrow> bool \<times> dedupState" where
  "urlCheck rt config st a =
     (if enableUrlDedup config \<and> url a \<noteq> [] then
        (let nUrl = normalizeUrl rt (Some (url a))
         in if nUrl \<in> set (seenUrls st) then (True, st)
            else if list_ex (\<lambda>existingUrl.
                       urlSimilarityThreshold config \<le> calculateUrlSimilarity nUrl existingUrl)
                     (seenUrls st)
                 then (True, st)
                 else (False, st\<lparr>seenUrls := seenUrls st @ [nUrl]\<rparr>))
      else (False, st))"

text \<open>Lines 100-120: the title check, entered only when \<open>isDuplicate\<close> is still false.\<close>

definition titleCheck :: "dedupConfig \<Rightarrow> dedupState \<Rightarrow> article \<Rightarrow> bool \<times> dedupState" where
  "titleCheck config st a =
     (if enableTitleDedup config \<and> title a \<noteq> [] then
        (let nTitle = normalizeTitle (Some (title a));
             titleHash = simpleHash nTitle
         in if titleHash \<in> set (seenTitleHashes st) then (True, st)
            else if list_ex (\<lambda>existingTitle.
                       titleSimilarityThreshold config \<le> calculateTitleSimilarity nTitle existingTitle)
                     (processedTitles st)
                 then (True, st)
                 else (False, st\<lparr>seenTitleHashes := seenTitleHashes st @ [titleHash],
                                 processedTitles := processedTitles st @ [nTitle]\<rparr>))
      else (False, st))"

text \<open>Lines 123-133: the content check against the accepted articles.\<close>

definition contentCheck :: "dedupConfig \<Rightarrow> dedupState \<Rightarrow> article \<Rightarrow> bool" where
  "contentCheck config st a =
     (if enableContentDedup config \<and> content a \<noteq> [] then
        (let nContent = normalizeContent (Some (content a))
         in list_ex (\<lambda>existingArticle.
               contentSimilarityThreshold config
                 \<le> calculateContentSimilarity nContent (normalizeContent (Some (content existingArticle))))
             (uniqueArticles st))
      else False)"

text \<open>Lines 135-147: the metadata of an accepted article. \<open>i\<close> is
  \<^verbatim>\<open>articles.indexOf(article)\<close>, the position of the article in the input.\<close>

definition withInfo :: "runtime \<Rightarrow> nat \<Rightarrow> article \<Rightarrow> article" where
  "withInfo rt i a =
     a\<lparr>deduplicationInfo := Some
         \<lparr> originalIndex = i,
           normalizedUrl = (if url a \<noteq> [] then Some (normalizeUrl rt (Some (url a))) else None),
           normalizedTitle = (if title a \<noteq> [] then Some (normalizeTitle (Some (title a))) else None) \<rparr>\<rparr>"

text \<open>One iteration of the loop, lines 75-148.\<close>

definition dedupStep :: "runtime \<Rightarrow> dedupConfig \<Rightarrow> nat \<Rightarrow> dedupState \<Rightarrow> article \<Rightarrow> dedupState" where
  "dedupStep rt config i st a =
     (let (isDuplicate, st) = urlCheck rt config st a;
          (isDuplicate, st) = (if \<not> isDuplicate then titleCheck config st a else (isDuplicate, st));
          isDuplicate = (if \<not> isDuplicate then contentCheck config st a else isDuplicate)
      in if \<not> isDuplicate then st\<lparr>uniqueArticles := uniqueArticles st @ [withInfo rt i a]\<rparr>
         else st)"

fun dedupLoop :: "runtime \<Rightarrow> dedupConfig \<Rightarrow> nat \<Rightarrow> dedupState \<Rightarrow> article list \<Rightarrow> dedupState" where
  "dedupLoop rt config i st [] = st"
| "dedupLoop rt config i st (a # articles) =
     dedupLoop rt config (Suc i) (dedupStep rt config i st a) articles"

definition initialState :: dedupState where
  "initialState = \<lparr> uniqueArticles = [], seenUrls = [], seenTitleHashes = [], processedTitles = [] \<rparr>"

text \<open>\<^verbatim>\<open>performDeduplication(articles, config)\<close>, lines 69-151.\<close>

definition performDeduplication :: "runtime \<Rightarrow> dedupConfig \<Rightarrow> article list \<Rightarrow> article list" where
  "performDeduplication rt config articles = uniqueArticles (dedupLoop rt config 0 initialState articles)"

text \<open>
  \<^verbatim>\<open>sortArticlesByDate\<close>, lines 374-384. The comparator is
  \<^verbatim>\<open>dateB.getTime() - dateA.getTime()\<close>; with an invalid date it is NaN, which the
  sort reads as 0. \<^verbatim>\<open>Array.prototype.sort\<close> is stable; it is modelled by insertion
  from the right, which is what every stable sort computes when all dates are valid.
  With invalid dates the comparator is not an order and the language leaves the
  result to the implementation, so the theorems below that speak about the sorted
  result assume valid dates.
\<close>

definition dateCompare :: "article \<Rightarrow> article \<Rightarrow> int" where
  "dateCompare a b =
     (case (publishedAt b, publishedAt a) of
        (Some tb, Some ta) \<Rightarrow> tb - ta
      | _ \<Rightarrow> 0)"

fun insertBy :: "('a \<Rightarrow> 'a \<Rightarrow> 'b::{zero,ord}) \<Rightarrow> 'a \<Rightarrow> 'a list \<Rightarrow> 'a list" where
  "insertBy cmp x [] = [x]"
| "insertBy cmp x (y # ys) = (if cmp x y \<le> 0 then x # y # ys else y # insertBy cmp x ys)"

definition sortBy :: "('a \<Rightarrow> 'a \<Rightarrow> 'b::{zero,ord}) \<Rightarrow> 'a list \<Rightarrow> 'a list" where
  "sortBy cmp xs = foldr (insertBy cmp) xs []"

definition sortArticlesByDate :: "article list \<Rightarrow> article list" where
  "sortArticlesByDate articles = sortBy dateCompare articles"

text \<open>\<^verbatim>\<open>deduplicateArticles(input, vars)\<close>, lines 12-44. The items of the input and of
  the result are the articles themselves. With the fields typed as above nothing in
  the \<^verbatim>\<open>try\<close> block throws, so the \<^verbatim>\<open>catch\<close> branch is not part of the model.\<close>

definition deduplicateArticles :: "runtime \<Rightarrow> vars \<Rightarrow> article list \<Rightarrow> article list" where
  "deduplicateArticles rt vars allArticles =
     (if length allArticles = 0 then []
      else let config = loadDeduplicationConfig rt vars;
               uniqueArticles = performDeduplication rt config allArticles;
               sortedArticles = sortArticlesByDate uniqueArticles;
               limitedArticles = sliceTo (dedupMaxArticles config) sortedArticles
           in limitedArticles)"

section \<open>Quality and Relevance Scorer\<close>

text \<open>
  The selection template (\<^verbatim>\<open>selectBestArticles\<close> and the functions it calls) receives
  the articles after content extraction: the fields of an article and those that the
  extraction step adds. \<open>contentQuality\<close> is the \<^verbatim>\<open>level\<close> of the quality assessment
  when there is one, \<open>contentLength\<close> is \<open>None\<close> when the field is absent, and
  \<open>originalData\<close> holds the two engagement numbers read by the scorer, 0 when absent.
\<close>

record originalData =
  score :: rat
  upvoteRatio :: rat

record processedArticle = article +
  type :: string
  fullContent :: string
  contentLength :: "int option"
  extractionSuccess :: bool
  contentQuality :: "string option"
  contentSource :: string
  originalData :: "originalData option"

text \<open>The six scoring factors are the keys of the objects \<^verbatim>\<open>scores\<close> and
  \<^verbatim>\<open>config.weights\<close>, in the order in which the source writes them.\<close>

datatype factor =
  ContentQuality | ContentLength | JapanRelevance | AiRelevance | SourceQuality | Recency

definition factors :: "factor list" where
  "factors = [ContentQuality, ContentLength, JapanRelevance, AiRelevance, SourceQuality, Recency]"

record diversitySettings =
  maxSameSource :: int
  maxSameCategory :: int
  preferDiverseSources :: bool

record selectionConfig =
  maxArticles :: int
  minScore :: rat
  weights :: "factor \<Rightarrow> rat"
  japanKeywords :: "string list"
  aiKeywords :: "string list"
  premiumSources :: "string list"
  diversitySettings :: diversitySettings

text \<open>
  \<^verbatim>\<open>loadSelectionConfig(vars)\<close>, lines 67-88. The default keyword lists of the source
  also name four keywords written in Japanese script; they lie outside the alphabet
  of the model, no modelled text contains them, and a keyword that does not occur
  adds nothing to a score, so the defaults below list the remaining keywords.
\<close>

definition weightName :: "factor \<Rightarrow> string" where
  "weightName f =
     (case f of
        ContentQuality \<Rightarrow> ''WEIGHT_CONTENT_QUALITY''
      | ContentLength \<Rightarrow> ''WEIGHT_CONTENT_LENGTH''
      | JapanRelevance \<Rightarrow> ''WEIGHT_JAPAN_RELEVANCE''
      | AiRelevance \<Rightarrow> ''WEIGHT_AI_RELEVANCE''
      | SourceQuality \<Rightarrow> ''WEIGHT_SOURCE_QUALITY''
      | Recency \<Rightarrow> ''WEIGHT_RECENCY'')"

definition defaultWeight :: "factor \<Rightarrow> rat" where
  "defaultWeight f = (case f of ContentQuality \<Rightarrow> 3 | _ \<Rightarrow> 2)"

definition stringOr :: "string option \<Rightarrow> string \<Rightarrow> string" where
  "stringOr v d = (case v of None \<Rightarrow> d | Some s \<Rightarrow> if s = [] then d else s)"

definition loadSelectionConfig :: "runtime \<Rightarrow> vars \<Rightarrow> selectionConfig" where
  "loadSelectionConfig rt vars =
     \<lparr> maxArticles = intOr rt (vars ''MAX_ARTICLES_IN_NEWSLETTER'') 10,
       minScore = floatOr rt (vars ''MIN_ARTICLE_SCORE'') 5,
       weights = (\<lambda>f. floatOr rt (vars (weightName f)) (defaultWeight f)),
       japanKeywords = split CHR '','' (stringOr (vars ''JAPAN_KEYWORDS'') ''japan,tokyo,japanese,nippon''),
       aiKeywords = split CHR '','' (stringOr (vars ''AI_KEYWORDS'')
                      ''ai,artificial intelligence,machine learning,deep learning,neural,robot''),
       premiumSources = split CHR '','' (stringOr (vars ''PREMIUM_SOURCES'')
                      ''reuters,bloomberg,nikkei,japan times,techcrunch,venturebeat''),
       diversitySettings =
         \<lparr> maxSameSource = intOr rt (vars ''MAX_SAME_SOURCE'') 3,
           maxSameCategory = intOr rt (vars ''MAX_SAME_CATEGORY'') 4,
           preferDiverseSources = (vars ''PREFER_DIVERSE_SOURCES'' \<noteq> Some ''false'') \<rparr> \<rparr>"

text \<open>\<^verbatim>\<open>str.includes(sub)\<close>\<close>

fun stringIncludes :: "string \<Rightarrow> string \<Rightarrow> bool" where
  "stringIncludes [] sub = (sub = [])"
| "stringIncludes (c # cs) sub = (take (length sub) (c # cs) = sub \<or> stringIncludes cs sub)"

definition clamp10 :: "rat \<Rightarrow> rat" where
  "clamp10 x = max 0 (min 10 x)"

text \<open>\<^verbatim>\<open>scoreContentQuality\<close>, lines 130-157.\<close>

definition scoreContentQuality :: "processedArticle \<Rightarrow> rat" where
  "scoreContentQuality a =
     (let s = 5;
          s = (if extractionSuccess a then s + 2 else s);
          s = (case contentQuality a of
                 None \<Rightarrow> s
               | Some level \<Rightarrow>
                   if level = ''excellent'' then s + 3
                   else if level = ''good'' then s + 2
                   else if level = ''fair'' then s + 1
                   else if level = ''poor'' then s - 1
                   else if level = ''very_poor'' then s - 2
                   else s);
          s = (if contentSource a = ''llm_extraction'' then s + 1
               else if contentSource a = ''description'' then s - 1
               else s)
      in clamp10 s)"

text \<open>\<^verbatim>\<open>scoreContentLength\<close>, lines 165-182.\<close>

definition scoreContentLength :: "processedArticle \<Rightarrow> rat" where
  "scoreContentLength a =
     (let n = (case contentLength a of
                 Some k \<Rightarrow> if k \<noteq> 0 then k else int (length (fullContent a))
               | None \<Rightarrow> int (length (fullContent a)))
      in if n = 0 then 0
         else if 500 \<le> n \<and> n \<le> 3000 then 10
         else if 300 \<le> n \<and> n \<le> 5000 then 8
         else if 200 \<le> n \<and> n \<le> 6000 then 6
         else if 100 \<le> n then 4
         else 2)"

definition scoringText :: "processedArticle \<Rightarrow> string" where
  "scoringText a = toLowerCase (title a @ '' '' @ fullContent a @ '' '' @ description a)"

text \<open>\<^verbatim>\<open>scoreJapanRelevance\<close>, lines 190-209. The second alternative of the first
  bonus tests for a word in Japanese script, which no modelled text contains.\<close>

definition scoreJapanRelevance :: "selectionConfig \<Rightarrow> processedArticle \<Rightarrow> rat" where
  "scoreJapanRelevance config a =
     (let fullText = scoringText a;
          japanMatches = filter (\<lambda>keyword. stringIncludes fullText (toLowerCase keyword)) (japanKeywords config);
          s = min (of_nat (length japanMatches) * 2) 8;
          s = (if stringIncludes fullText ''tokyo'' then s + 1 else s);
          s = (if stringIncludes fullText ''japanese company'' \<or> stringIncludes fullText ''japan-based'' then s + 1 else s);
          s = (if source a \<noteq> [] \<and> stringIncludes (toLowerCase (source a)) ''japan'' then s + 1 else s)
      in min 10 s)"

text \<open>\<^verbatim>\<open>scoreAIRelevance\<close>, lines 217-239.\<close>

definition advancedAITerms :: "string list" where
  "advancedAITerms =
     [''neural network'', ''deep learning'', ''machine learning'', ''llm'', ''gpt'', ''transformer'']"

definition scoreAIRelevance :: "selectionConfig \<Rightarrow> processedArticle \<Rightarrow> rat" where
  "scoreAIRelevance config a =
     (let fullText = scoringText a;
          aiMatches = filter (\<lambda>keyword. stringIncludes fullText (toLowerCase keyword)) (aiKeywords config);
          s = min (of_nat (length aiMatches) * (3 / 2)) 7;
          advancedMatches = filter (\<lambda>term. stringIncludes fullText term) advancedAITerms;
          s = s + min (of_nat (length advancedMatches)) 2;
          s = (if stringIncludes fullText ''research'' \<or> stringIncludes fullText ''development''
                  \<or> stringIncludes fullText ''breakthrough'' then s + 1 else s)
      in min 10 s)"

text \<open>\<^verbatim>\<open>scoreSourceQuality\<close>, lines 247-282.\<close>

definition techSources :: "string list" where
  "techSources = [''techcrunch'', ''venturebeat'', ''wired'', ''ars technica'', ''the verge'']"

definition scoreSourceQuality :: "selectionConfig \<Rightarrow> processedArticle \<Rightarrow> rat" where
  "scoreSourceQuality config a =
     (let sourceName = toLowerCase (source a);
          s = 5;
          isPremiumSource = list_ex (\<lambda>src. stringIncludes sourceName (toLowerCase src)) (premiumSources config);
          s = (if isPremiumSource then s + 3 else s);
          s = (if stringIncludes sourceName ''university'' \<or> stringIncludes sourceName ''research''
                  \<or> stringIncludes sourceName ''institute'' \<or> stringIncludes sourceName ''academic''
               then s + 2 else s);
          s = (if list_ex (\<lambda>src. stringIncludes sourceName src) techSources then s + 1 else s);
          s = (case originalData a of
                 Some d \<Rightarrow>
                   if type a = ''reddit'' then
                     (if 50 < score d \<and> 8 / 10 < upvoteRatio d then s + 2
                      else if 20 < score d \<and> 7 / 10 < upvoteRatio d then s + 1
                      else s)
                   else s
               | None \<Rightarrow> s)
      in clamp10 s)"

text \<open>
  \<^verbatim>\<open>scoreRecency\<close>, lines 290-308. \<open>now\<close> is the time value of \<^verbatim>\<open>new Date()\<close>.
  \<open>ageInHours\<close> is \<open>None\<close> when the subtraction yields NaN, and every comparison
  with NaN is false. Constructing a date from an unparsable text yields an invalid
  date and does not throw, so the \<^verbatim>\<open>catch\<close> branch with its value 5 is never
  entered and has no counterpart here.
\<close>

definition ageInHours :: "int \<Rightarrow> processedArticle \<Rightarrow> rat option" where
  "ageInHours now a =
     (case publishedAt a of
        Some publishedDate \<Rightarrow> Some (of_int (now - publishedDate) / (1000 * 60 * 60))
      | None \<Rightarrow> None)"

definition lessThan :: "rat option \<Rightarrow> rat \<Rightarrow> bool" where
  "lessThan x y = (case x of Some v \<Rightarrow> v < y | None \<Rightarrow> False)"

definition scoreRecency :: "int \<Rightarrow> processedArticle \<Rightarrow> rat" where
  "scoreRecency now a =
     (let age = ageInHours now a
      in if lessThan age 6 then 10
         else if lessThan age 12 then 9
         else if lessThan age 24 then 8
         else if lessThan age 48 then 6
         else if lessThan age 72 then 4
         else if lessThan age 168 then 2
         else 1)"

text \<open>
  \<^verbatim>\<open>scoreArticles\<close>, lines 96-122. \<open>scores\<close> holds \<^verbatim>\<open>Object.entries(scores)\<close>, the
  keys with their values in insertion order; \<open>finalScore\<close> is the \<^verbatim>\<open>reduce\<close> over
  these entries. Of \<^verbatim>\<open>scoringMetadata\<close> the field \<^verbatim>\<open>maxPossibleScore\<close> is kept and the
  wall-clock stamp is left out.
\<close>

record scoredArticle = processedArticle +
  scores :: "(factor \<times> rat) list"
  finalScore :: rat
  maxPossibleScore :: rat

definition subScores :: "selectionConfig \<Rightarrow> int \<Rightarrow> processedArticle \<Rightarrow> (factor \<times> rat) list" where
  "subScores config now a =
     [(ContentQuality, scoreContentQuality a),
      (ContentLength, scoreContentLength a),
      (JapanRelevance, scoreJapanRelevance config a),
      (AiRelevance, scoreAIRelevance config a),
      (SourceQuality, scoreSourceQuality config a),
      (Recency, scoreRecency now a)]"

definition weightedTotal :: "(factor \<Rightarrow> rat) \<Rightarrow> (factor \<times> rat) list \<Rightarrow> rat" where
  "weightedTotal w entries = foldl (\<lambda>total (key, s). total + s * w key) 0 entries"

definition scoreArticle :: "selectionConfig \<Rightarrow> int \<Rightarrow> processedArticle \<Rightarrow> scoredArticle" where
  "scoreArticle config now a =
     (let scores = subScores config now a;
          finalScore = weightedTotal (weights config) scores
      in processedArticle.extend a
           \<lparr> scores = scores, finalScore = finalScore,
             maxPossibleScore = foldl (\<lambda>sum weight. sum + weight * 10) 0 (map (weights config) factors) \<rparr>)"

definition scoreArticles :: "selectionConfig \<Rightarrow> int \<Rightarrow> processedArticle list \<Rightarrow> scoredArticle list" where
  "scoreArticles config now articles = map (scoreArticle config now) articles"

section \<open>Diversity Selector\<close>

text \<open>\<^verbatim>\<open>filterByMinimumScore\<close>, lines 316-318.\<close>

definition filterByMinimumScore :: "scoredArticle list \<Rightarrow> selectionConfig \<Rightarrow> scoredArticle list" where
  "filterByMinimumScore articles config = filter (\<lambda>a. minScore config \<le> finalScore a) articles"

text \<open>The comparator \<^verbatim>\<open>(a, b) => b.finalScore - a.finalScore\<close> of both sorts.\<close>

definition scoreCompare :: "scoredArticle \<Rightarrow> scoredArticle \<Rightarrow> rat" where
  "scoreCompare a b = finalScore b - finalScore a"

text \<open>
  The counters \<^verbatim>\<open>sourceCounts\<close> and \<^verbatim>\<open>categoryCounts\<close> are plain objects. Reading a
  key that was never written gives \<^verbatim>\<open>undefined\<close>, which \<^verbatim>\<open>|| 0\<close> turns into 0, unless
  the key names a property inherited from \<^verbatim>\<open>Object.prototype\<close>: then the read gives a
  function or an object, which is truthy and compares as NaN. \<open>countOf\<close> gives
  \<open>None\<close> in that case.
\<close>

definition objectPrototypeKeys :: "string list" where
  "objectPrototypeKeys =
     [''constructor'', ''hasOwnProperty'', ''isPrototypeOf'', ''propertyIsEnumerable'',
      ''toLocaleString'', ''toString'', ''valueOf'', ''__proto__'',
      ''__defineGetter__'', ''__defineSetter__'', ''__lookupGetter__'', ''__lookupSetter__'']"

definition countOf :: "(string \<Rightarrow> nat option) \<Rightarrow> string \<Rightarrow> nat option" where
  "countOf counts key =
     (case counts key of
        Some n \<Rightarrow> Some n
      | None \<Rightarrow> if key \<in> set objectPrototypeKeys then None else Some 0)"

definition below :: "nat option \<Rightarrow> int \<Rightarrow> bool" where
  "below c limit = (case c of Some n \<Rightarrow> int n < limit | None \<Rightarrow> False)"

definition sourceKey :: "scoredArticle \<Rightarrow> string" where
  "sourceKey a = (if source a \<noteq> [] then source a else ''unknown'')"

definition categoryKey :: "scoredArticle \<Rightarrow> string" where
  "categoryKey a = (if type a \<noteq> [] then type a else ''unknown'')"

text \<open>The loop of \<^verbatim>\<open>ensureArticleDiversity\<close>, lines 338-353, over the sorted articles,
  with the admitted articles and the two counters as its state.\<close>

fun diversityLoop ::
  "diversitySettings \<Rightarrow> scoredArticle list \<Rightarrow> (string \<Rightarrow> nat option) \<Rightarrow> (string \<Rightarrow> nat option)
     \<Rightarrow> scoredArticle list \<Rightarrow> scoredArticle list" where
  "diversityLoop ds diverseArticles sourceCounts categoryCounts [] = diverseArticles"
| "diversityLoop ds diverseArticles sourceCounts categoryCounts (a # sortedArticles) =
     (let sourceCount = countOf sourceCounts (sourceKey a);
          categoryCount = countOf categoryCounts (categoryKey a)
      in if below sourceCount (maxSameSource ds) \<and> below categoryCount (maxSameCategory ds)
         then diversityLoop ds (diverseArticles @ [a])
                (sourceCounts(sourceKey a \<mapsto> the sourceCount + 1))
                (categoryCounts(categoryKey a \<mapsto> the categoryCount + 1))
                sortedArticles
         else diversityLoop ds diverseArticles sourceCounts categoryCounts sortedArticles)"

text \<open>\<^verbatim>\<open>ensureArticleDiversity\<close>, lines 326-356.\<close>

definition ensureArticleDiversity :: "scoredArticle list \<Rightarrow> selectionConfig \<Rightarrow> scoredArticle list" where
  "ensureArticleDiversity articles config =
     (if \<not> preferDiverseSources (diversitySettings config) then articles
      else let sortedArticles = sortBy scoreCompare articles
           in diversityLoop (diversitySettings config) [] Map.empty Map.empty sortedArticles)"

text \<open>Lines 30-39 of \<^verbatim>\<open>selectBestArticles\<close>: from the scored articles to the selected
  ones.\<close>

definition selectTopArticles :: "selectionConfig \<Rightarrow> scoredArticle list \<Rightarrow> scoredArticle list" where
  "selectTopArticles config scoredArticles =
     (let qualifiedArticles = filterByMinimumScore scoredArticles config;
          diverseArticles = ensureArticleDiversity qualifiedArticles config
      in sliceTo (maxArticles config) (sortBy scoreCompare diverseArticles))"

text \<open>\<^verbatim>\<open>selectBestArticles(input, vars)\<close>, lines 12-60: the selected articles of the
  result. The selection metadata, computed from them afterwards, is not modelled.\<close>

definition selectBestArticles :: "runtime \<Rightarrow> vars \<Rightarrow> int \<Rightarrow> processedArticle list \<Rightarrow> scoredArticle list" where
  "selectBestArticles rt vars now allArticles =
     (if length allArticles = 0 then []
      else let config = loadSelectionConfig rt vars
           in selectTopArticles config (scoreArticles config now allArticles))"

section \<open>Concrete inputs\<close>

text \<open>
  The runtime used for the concrete inputs below. Its tables list what the built-ins
  return on the arguments that occur in these inputs: the \<^verbatim>\<open>URL\<close> constructor on five
  absolute URLs, the serialisation of a query without reserved characters, and
  \<^verbatim>\<open>parseInt\<close> and \<^verbatim>\<open>parseFloat\<close> on the text \<^verbatim>\<open>-1\<close>.
\<close>

definition exampleUrls :: "(string \<times> urlObj) list" where
  "exampleUrls =
     [(''https://site.com/a?utm_source=x'',
         \<lparr> origin = ''https://site.com'', pathname = ''/a'', searchParams = [(''utm_source'', ''x'')] \<rparr>),
      (''https://site.com/a'',
         \<lparr> origin = ''https://site.com'', pathname = ''/a'', searchParams = [] \<rparr>),
      (''https://a.com/one'',
         \<lparr> origin = ''https://a.com'', pathname = ''/one'', searchParams = [] \<rparr>),
      (''https://b.com/two'',
         \<lparr> origin = ''https://b.com'', pathname = ''/two'', searchParams = [] \<rparr>),
      (''https://c.org/three'',
         \<lparr> origin = ''https://c.org'', pathname = ''/three'', searchParams = [] \<rparr>)]"

fun plainQuery :: "(string \<times> string) list \<Rightarrow> string" where
  "plainQuery [] = []"
| "plainQuery [(k, v)] = k @ ''='' @ v"
| "plainQuery ((k, v) # ps) = k @ ''='' @ v @ ''&'' @ plainQuery ps"

definition exampleRuntime :: runtime where
  "exampleRuntime =
     \<lparr> newURL = map_of exampleUrls,
       paramsToString = plainQuery,
       parseFloat = map_of [(''-1'', - 1)],
       parseInt = map_of [(''-1'', - 1)] \<rparr>"

definition noVars :: vars where
  "noVars = (\<lambda>name. None)"

definition diversityOffVars :: vars where
  "diversityOffVars = (\<lambda>name. if name = ''PREFER_DIVERSE_SOURCES'' then Some ''false'' else None)"

definition mkArticle :: "string \<Rightarrow> string \<Rightarrow> string \<Rightarrow> int \<Rightarrow> article" where
  "mkArticle t u c published =
     \<lparr> title = t, description = [], content = c, url = u, source = ''Example News'',
       publishedAt = Some published, deduplicationInfo = None \<rparr>"

definition mkProcessed :: "string \<Rightarrow> string \<Rightarrow> string \<Rightarrow> int option \<Rightarrow> processedArticle" where
  "mkProcessed t src body published =
     \<lparr> title = t, description = [], content = [], url = ''https://a.com/one'', source = src,
       publishedAt = published, deduplicationInfo = None,
       type = ''news'', fullContent = body, contentLength = Some (int (length body)),
       extractionSuccess = True, contentQuality = Some ''good'', contentSource = ''llm_extraction'',
       originalData = None \<rparr>"

definition mkScored :: "string \<Rightarrow> string \<Rightarrow> rat \<Rightarrow> scoredArticle" where
  "mkScored src category final =
     processedArticle.extend ((mkProcessed ''A title'' src ''body'' (Some 0))\<lparr>type := category\<rparr>)
       \<lparr> scores = [], finalScore = final, maxPossibleScore = 130 \<rparr>"

section \<open>The title normalizer as the specification words it\<close>

text \<open>
  The specification describes \<^verbatim>\<open>normalizeTitle\<close> as: lower-case; replace every
  character that is neither alphanumeric nor white space with a space; collapse runs
  of white space to one space; trim; truncate to 100 characters; empty or absent
  input yields the empty string. \<open>specNormalizeTitle\<close> follows these words, with the
  ASCII letters and digits as the alphanumeric characters; it is compared with the
  function translated from the source.
\<close>

definition isAlphanumeric :: "char \<Rightarrow> bool" where
  "isAlphanumeric c =
     (let n = code c in (48 \<le> n \<and> n \<le> 57) \<or> (65 \<le> n \<and> n \<le> 90) \<or> (97 \<le> n \<and> n \<le> 122))"

definition specNormalizeTitle :: "string option \<Rightarrow> string" where
  "specNormalizeTitle input =
     (case input of
        None \<Rightarrow> []
      | Some t \<Rightarrow>
          take 100 (trim (collapseWhitespace
            (map (\<lambda>c. if isAlphanumeric c \<or> isSpace c then c else CHR '' '') (toLowerCase t)))))"

section \<open>The recurrence of the edit distance\<close>

text \<open>
  The cell \<open>matrix[i][j]\<close> of \<^verbatim>\<open>levenshteinDistance\<close> depends on the last characters
  of the two prefixes. \<open>editDistance\<close> is this recurrence on the reversed prefixes,
  where the last character is the head; it is used to reason about the matrix.
  \<open>rowOf ps ds ys\<close> is the part of a matrix row that starts at the column of the
  reversed prefix \<open>ps\<close> and runs over the remaining characters \<open>ds\<close>.
\<close>

fun editDistance :: "string \<Rightarrow> string \<Rightarrow> nat" where
  "editDistance [] ys = length ys"
| "editDistance (x # xs) [] = Suc (length xs)"
| "editDistance (x # xs) (y # ys) =
     (if x = y then editDistance xs ys
      else Suc (min (editDistance xs ys) (min (editDistance (x # xs) ys) (editDistance xs (y # ys)))))"

fun rowOf :: "string \<Rightarrow> string \<Rightarrow> string \<Rightarrow> nat list" where
  "rowOf ps [] ys = [editDistance ps ys]"
| "rowOf ps (d # ds) ys = editDistance ps ys # rowOf (d # ps) ds ys"

section \<open>Notions for reasoning about the Deduplicator\<close>

text \<open>
  \<open>urlDuplicate\<close> and \<open>titleDuplicate\<close> say when the URL check and the title check
  flag an article against given anchors. \<open>clash a b\<close> says that the article \<open>b\<close> is
  flagged by one of the three checks when \<open>a\<close> is the only article recorded before it.
  \<open>reindexed\<close> renumbers the field \<open>originalIndex\<close> of the metadata by position and
  changes nothing else.
\<close>

definition urlDuplicate :: "runtime \<Rightarrow> dedupConfig \<Rightarrow> string list \<Rightarrow> article \<Rightarrow> bool" where
  "urlDuplicate rt config anchors a \<longleftrightarrow>
     enableUrlDedup config \<and> url a \<noteq> [] \<and>
     (normalizeUrl rt (Some (url a)) \<in> set anchors
      \<or> (\<exists>e \<in> set anchors.
            urlSimilarityThreshold config \<le> calculateUrlSimilarity (normalizeUrl rt (Some (url a))) e))"

definition titleDuplicate :: "dedupConfig \<Rightarrow> 32 word list \<Rightarrow> string list \<Rightarrow> article \<Rightarrow> bool" where
  "titleDuplicate config hashes anchors a \<longleftrightarrow>
     enableTitleDedup config \<and> title a \<noteq> [] \<and>
     (simpleHash (normalizeTitle (Some (title a))) \<in> set hashes
      \<or> (\<exists>e \<in> set anchors.
            titleSimilarityThreshold config \<le> calculateTitleSimilarity (normalizeTitle (Some (title a))) e))"

definition clash :: "runtime \<Rightarrow> dedupConfig \<Rightarrow> article \<Rightarrow> article \<Rightarrow> bool" where
  "clash rt config a b \<longleftrightarrow>
     (enableUrlDedup config \<and> url a \<noteq> [] \<and> url b \<noteq> [] \<and>
        (normalizeUrl rt (Some (url b)) = normalizeUrl rt (Some (url a))
         \<or> urlSimilarityThreshold config
              \<le> calculateUrlSimilarity (normalizeUrl rt (Some (url b))) (normalizeUrl rt (Some (url a)))))
     \<or> (enableTitleDedup config \<and> title a \<noteq> [] \<and> title b \<noteq> [] \<and>
        (simpleHash (normalizeTitle (Some (title b))) = simpleHash (normalizeTitle (Some (title a)))
         \<or> titleSimilarityThreshold config
              \<le> calculateTitleSimilarity (normalizeTitle (Some (title b))) (normalizeTitle (Some (title a)))))
     \<or> (enableContentDedup config \<and> content b \<noteq> [] \<and>
        contentSimilarityThreshold config
          \<le> calculateContentSimilarity (normalizeContent (Some (content b)))
               (normalizeContent (Some (content a))))"

definition reindexed :: "article list \<Rightarrow> article list" where
  "reindexed articles =
     map (\<lambda>(i, a). a\<lparr>deduplicationInfo := map_option (\<lambda>d. d\<lparr>originalIndex := i\<rparr>) (deduplicationInfo a)\<rparr>)
       (enumerate 0 articles)"

text \<open>The state after the URL check and after the title check of an article, and the
  condition under which the article is accepted.\<close>

definition afterUrl :: "runtime \<Rightarrow> dedupConfig \<Rightarrow> dedupState \<Rightarrow> article \<Rightarrow> dedupState" where
  "afterUrl rt config st a = snd (urlCheck rt config st a)"

definition afterTitle :: "runtime \<Rightarrow> dedupConfig \<Rightarrow> dedupState \<Rightarrow> article \<Rightarrow> dedupState" where
  "afterTitle rt config st a = snd (titleCheck config (afterUrl rt config st a) a)"

definition accepted :: "runtime \<Rightarrow> dedupConfig \<Rightarrow> dedupState \<Rightarrow> article \<Rightarrow> bool" where
  "accepted rt config st a \<longleftrightarrow>
     \<not> urlDuplicate rt config (seenUrls st) a
     \<and> \<not> titleDuplicate config (seenTitleHashes st) (processedTitles st) a
     \<and> \<not> contentCheck config st a"

text \<open>\<open>urlsRecorded\<close>: every accepted article has its normalized URL among the recorded URLs.\<close>

definition urlsRecorded :: "runtime \<Rightarrow> dedupConfig \<Rightarrow> dedupState \<Rightarrow> bool" where
  "urlsRecorded rt config st \<longleftrightarrow>
     (\<forall>a \<in> set (uniqueArticles st).
        enableUrlDedup config \<and> url a \<noteq> [] \<longrightarrow> normalizeUrl rt (Some (url a)) \<in> set (seenUrls st))"

text \<open>Articles for the Deduplicator: an older and a newer report under URLs that differ
  by a tracking parameter, and three articles of which the second repeats the title
  of the first and the third repeats the URL of the second.\<close>

definition olderArticle :: article where
  "olderArticle = mkArticle ''Older report on robots'' ''https://site.com/a?utm_source=x'' [] 100"

definition newerArticle :: article where
  "newerArticle = mkArticle ''Newer story about chips'' ''https://site.com/a'' [] 200"

definition robotArticle :: article where
  "robotArticle = mkArticle ''Japan unveils new robot'' ''https://a.com/one'' [] 300"

definition robotCopy :: article where
  "robotCopy = mkArticle ''Japan Unveils New Robot!!!'' ''https://b.com/two'' [] 200"

definition chipArticle :: article where
  "chipArticle = mkArticle ''Chip makers expand capacity in Kyushu'' ''https://b.com/two'' [] 100"

definition defaultDedupConfig :: dedupConfig where
  "defaultDedupConfig = loadDeduplicationConfig exampleRuntime noVars"

text \<open>
  \<open>dedupInv\<close> is the invariant of the loop of \<open>performDeduplication\<close>: the anchors of
  every accepted article are recorded, and no accepted article clashes with an
  earlier one. \<open>anchorsWithin st P\<close> says that every anchor of the state \<open>st\<close> stems
  from an article of the list \<open>P\<close>. \<open>stamped\<close> holds for an article that carries the
  metadata of \<open>withInfo\<close>.
\<close>

definition titlesRecorded :: "dedupConfig \<Rightarrow> dedupState \<Rightarrow> bool" where
  "titlesRecorded config st \<longleftrightarrow>
     (\<forall>a \<in> set (uniqueArticles st).
        enableTitleDedup config \<and> title a \<noteq> [] \<longrightarrow>
          normalizeTitle (Some (title a)) \<in> set (processedTitles st)
          \<and> simpleHash (normalizeTitle (Some (title a))) \<in> set (seenTitleHashes st))"

definition dedupInv :: "runtime \<Rightarrow> dedupConfig \<Rightarrow> dedupState \<Rightarrow> bool" where
  "dedupInv rt config st \<longleftrightarrow>
     urlsRecorded rt config st \<and> titlesRecorded config st
     \<and> sorted_wrt (\<lambda>a b. \<not> clash rt config a b) (uniqueArticles st)"

definition anchorsWithin :: "runtime \<Rightarrow> dedupConfig \<Rightarrow> dedupState \<Rightarrow> article list \<Rightarrow> bool" where
  "anchorsWithin rt config st P \<longleftrightarrow>
     (\<forall>e \<in> set (seenUrls st). \<exists>a \<in> set P. url a \<noteq> [] \<and> e = normalizeUrl rt (Some (url a)))
     \<and> (\<forall>e \<in> set (processedTitles st). \<exists>a \<in> set P. title a \<noteq> [] \<and> e = normalizeTitle (Some (title a)))
     \<and> (\<forall>h \<in> set (seenTitleHashes st).
           \<exists>a \<in> set P. title a \<noteq> [] \<and> h = simpleHash (normalizeTitle (Some (title a))))
     \<and> (\<forall>u \<in> set (uniqueArticles st). \<exists>a \<in> set P. content u = content a)"

definition stamped :: "runtime \<Rightarrow> article \<Rightarrow> bool" where
  "stamped rt a \<longleftrightarrow> (\<exists>i b. a = withInfo rt i b)"

text \<open>Configurations and an article for the second run of the Deduplicator.\<close>

definition negativeLimitVars :: vars where
  "negativeLimitVars = (\<lambda>name. if name = ''MAX_ARTICLES_AFTER_DEDUP'' then Some ''-1'' else None)"

definition negativeThresholdVars :: vars where
  "negativeThresholdVars =
     (\<lambda>name. if name = ''ENABLE_CONTENT_DEDUP'' then Some ''true''
             else if name = ''CONTENT_SIMILARITY_THRESHOLD'' then Some ''-1''
             else None)"

definition robotNote :: article where
  "robotNote = mkArticle ''Robots'' ''https://a.com/one'' [] 300"

definition chipNote :: article where
  "chipNote = mkArticle ''Chips'' ''https://b.com/two'' [] 100"

definition chipNoteWithBody :: article where
  "chipNoteWithBody = mkArticle ''Chips'' ''https://b.com/two'' ''Fabs'' 100"

text \<open>Configurations with one switch or one limit changed, and an article that shares
  the URL of \<open>robotNote\<close>.\<close>

definition urlDedupOffVars :: vars where
  "urlDedupOffVars = (\<lambda>name. if name = ''ENABLE_URL_DEDUP'' then Some ''false'' else None)"

definition chipNoteSameUrl :: article where
  "chipNoteSameUrl = mkArticle ''Chips'' ''https://a.com/one'' [] 100"

definition negativeSourceCapVars :: vars where
  "negativeSourceCapVars = (\<lambda>name. if name = ''MAX_SAME_SOURCE'' then Some ''-1'' else None)"

definition negativeCategoryCapVars :: vars where
  "negativeCategoryCapVars = (\<lambda>name. if name = ''MAX_SAME_CATEGORY'' then Some ''-1'' else None)"

definition negativeMaxArticlesVars :: vars where
  "negativeMaxArticlesVars = (\<lambda>name. if name = ''MAX_ARTICLES_IN_NEWSLETTER'' then Some ''-1'' else None)"

section \<open>Recency\<close>

lemma scoreRecency_bands:
  assumes "publishedAt a = Some t"
  shows "scoreRecency now a =
     (let h = (of_int (now - t) :: rat) / 3600000
      in if h < 6 then 10 else if h < 12 then 9 else if h < 24 then 8 else if h < 48 then 6
         else if h < 72 then 4 else if h < 168 then 2 else 1)"
  using assms by (simp add: scoreRecency_def ageInHours_def lessThan_def Let_def)

text \<open>
  Claim C2. For an article whose \<open>publishedAt\<close> does not parse as a date, the claim and
  the comment in the source give the recency sub-score 5. The code computes an age of
  NaN, every band test fails, and the sub-score is 1, the value of the oldest band.
  For a valid date the bands are those of the claim (\<open>scoreRecency_bands\<close>).
\<close>

theorem scoreRecency_invalid_date:
  "scoreRecency now (a\<lparr>publishedAt := None\<rparr>) = 1
   \<and> scoreRecency 0 (mkProcessed ''A title'' ''Example News'' ''body'' None) \<noteq> 5"
  by (simp add: scoreRecency_def ageInHours_def lessThan_def mkProcessed_def)

section \<open>The diversity switch\<close>

lemma ensureArticleDiversity_off:
  "\<not> preferDiverseSources (diversitySettings config) \<Longrightarrow> ensureArticleDiversity articles config = articles"
  by (simp add: ensureArticleDiversity_def)

text \<open>
  Claim C10. When the environment variable \<^verbatim>\<open>PREFER_DIVERSE_SOURCES\<close> is the text
  \<^verbatim>\<open>false\<close>, the loaded configuration has \<open>preferDiverseSources\<close> false, the diversity
  step returns its input unchanged, and the selection is the score filter followed by
  the sort and the cut to \<open>maxArticles\<close>: no per-source or per-category cap takes part.
\<close>

theorem diversity_disabled_by_environment:
  assumes "vars ''PREFER_DIVERSE_SOURCES'' = Some ''false''"
  shows "\<not> preferDiverseSources (diversitySettings (loadSelectionConfig rt vars))
    \<and> ensureArticleDiversity articles (loadSelectionConfig rt vars) = articles
    \<and> selectTopArticles (loadSelectionConfig rt vars) scored =
        sliceTo (maxArticles (loadSelectionConfig rt vars))
          (sortBy scoreCompare
            (filter (\<lambda>a. minScore (loadSelectionConfig rt vars) \<le> finalScore a) scored))"
proof -
  have off: "\<not> preferDiverseSources (diversitySettings (loadSelectionConfig rt vars))"
    using assms by (simp add: loadSelectionConfig_def)
  then show ?thesis
    by (simp add: selectTopArticles_def ensureArticleDiversity_off filterByMinimumScore_def)
qed

theorem diversity_disabled_by_environment_witness:
  "diversityOffVars ''PREFER_DIVERSE_SOURCES'' = Some ''false''
   \<and> ensureArticleDiversity
        [mkScored ''Reuters'' ''news'' 90, mkScored ''Reuters'' ''news'' 80,
         mkScored ''Reuters'' ''news'' 70, mkScored ''Reuters'' ''news'' 60]
        (loadSelectionConfig exampleRuntime diversityOffVars)
      = [mkScored ''Reuters'' ''news'' 90, mkScored ''Reuters'' ''news'' 80,
         mkScored ''Reuters'' ''news'' 70, mkScored ''Reuters'' ''news'' 60]"
proof -
  have h: "diversityOffVars ''PREFER_DIVERSE_SOURCES'' = Some ''false''"
    by (simp add: diversityOffVars_def)
  show ?thesis
    using h diversity_disabled_by_environment [where vars = diversityOffVars and rt = exampleRuntime, OF h]
    by simp
qed

section \<open>The final score\<close>


lemma clamp10_range: "0 \<le> clamp10 x \<and> clamp10 x \<le> 10"
  by (simp add: clamp10_def)

lemma scoreContentQuality_range: "0 \<le> scoreContentQuality a \<and> scoreContentQuality a \<le> 10"
  unfolding scoreContentQuality_def Let_def by (rule clamp10_range)

lemma scoreContentLength_range: "0 \<le> scoreContentLength a \<and> scoreContentLength a \<le> 10"
  by (simp add: scoreContentLength_def Let_def)

lemma scoreJapanRelevance_range: "0 \<le> scoreJapanRelevance config a \<and> scoreJapanRelevance config a \<le> 10"
  by (simp add: scoreJapanRelevance_def Let_def min_def)

lemma scoreAIRelevance_range: "0 \<le> scoreAIRelevance config a \<and> scoreAIRelevance config a \<le> 10"
  by (simp add: scoreAIRelevance_def Let_def min_def)

lemma scoreSourceQuality_range: "0 \<le> scoreSourceQuality config a \<and> scoreSourceQuality config a \<le> 10"
  unfolding scoreSourceQuality_def Let_def by (rule clamp10_range)

lemma scoreRecency_range: "0 \<le> scoreRecency now a \<and> scoreRecency now a \<le> 10"
  by (simp add: scoreRecency_def Let_def)

lemma subScores_range:
  "(f, s) \<in> set (subScores config now a) \<Longrightarrow> 0 \<le> s \<and> s \<le> 10"
  using scoreContentQuality_range [of a] scoreContentLength_range [of a]
    scoreJapanRelevance_range [of config a] scoreAIRelevance_range [of config a]
    scoreSourceQuality_range [of config a] scoreRecency_range [of now a]
  by (auto simp: subScores_def)

lemma weightedTotal_sum:
  "weightedTotal w entries = (\<Sum>(f, s) \<leftarrow> entries. s * w f)"
proof -
  have "foldl (\<lambda>total (key, s). total + s * w key) acc entries
          = acc + (\<Sum>(f, s) \<leftarrow> entries. s * w f)" for acc
    by (induction entries arbitrary: acc) (auto simp: algebra_simps)
  then show ?thesis by (simp add: weightedTotal_def)
qed

lemma weightedTotal_mono:
  assumes "\<forall>(f, s) \<in> set entries. 0 \<le> s" and "w g \<le> x"
  shows "weightedTotal w entries \<le> weightedTotal (w(g := x)) entries"
  unfolding weightedTotal_sum using assms(1)
proof (induction entries)
  case Nil
  then show ?case by simp
next
  case (Cons e entries)
  obtain f s where e: "e = (f, s)" by (cases e)
  have "0 \<le> s" using Cons.prems e by simp
  then have "s * w f \<le> s * (w(g := x)) f"
    using assms(2) by (simp add: mult_left_mono)
  moreover have "(\<Sum>(f, s) \<leftarrow> entries. s * w f) \<le> (\<Sum>(f, s) \<leftarrow> entries. s * (w(g := x)) f)"
    using Cons by simp
  ultimately show ?case using e by simp
qed

lemma subScores_weights_irrelevant:
  "subScores (config\<lparr>weights := w\<rparr>) now a = subScores config now a"
  by (simp add: subScores_def scoreJapanRelevance_def scoreAIRelevance_def scoreSourceQuality_def)

lemma finalScore_scoreArticle:
  "finalScore (scoreArticle config now a) = weightedTotal (weights config) (subScores config now a)"
  by (simp add: scoreArticle_def Let_def processedArticle.extend_def)


lemma w1: "weights (loadSelectionConfig exampleRuntime noVars) Recency \<le> 5"
  by (simp add: loadSelectionConfig_def noVars_def floatOr_def defaultWeight_def)


section \<open>Title normalization\<close>

lemma code_underscore: "code c = 95 \<longleftrightarrow> c = CHR ''_''"
proof -
  have "(of_char c :: nat) = of_char (CHR ''_'') \<longleftrightarrow> c = CHR ''_''"
    by (rule of_char_eq_iff)
  then show ?thesis by (simp add: code_def)
qed

lemma isWordChar_alt: "isWordChar c \<longleftrightarrow> isAlphanumeric c \<or> c = CHR ''_''"
  using code_underscore [of c] by (auto simp: isWordChar_def isAlphanumeric_def Let_def)

lemma lowerChar_underscore: "lowerChar c = CHR ''_'' \<longleftrightarrow> c = CHR ''_''"
proof
  assume "lowerChar c = CHR ''_''"
  then have "code (lowerChar c) = 95" by (simp add: code_underscore)
  moreover have "code c < 256" by (simp add: code_def)
  ultimately have "code c = 95"
    by (auto simp: lowerChar_def Let_def code_def split: if_splits)
  then show "c = CHR ''_''" by (simp add: code_underscore)
next
  assume "c = CHR ''_''"
  then show "lowerChar c = CHR ''_''" by (simp add: lowerChar_def code_def)
qed

lemma normalizeTitle_pipeline:
  "normalizeTitle (Some t) =
     take 100 (trim (collapseWhitespace
       (map (\<lambda>c. if isAlphanumeric c \<or> c = CHR ''_'' \<or> isSpace c then c else CHR '' '')
          (toLowerCase t))))"
proof (cases "t = []")
  case True
  then show ?thesis
    by (simp add: normalizeTitle_def trim_def collapseWhitespace_def toLowerCase_def)
next
  case False
  then show ?thesis
    by (simp add: normalizeTitle_def replaceNonWord_def isWordChar_alt disj_ac)
qed

lemma normalizeTitle_spec_agree:
  assumes "CHR ''_'' \<notin> set t"
  shows "normalizeTitle (Some t) = specNormalizeTitle (Some t)"
proof -
  have "lowerChar x \<noteq> CHR ''_''" if "x \<in> set t" for x
    using that assms lowerChar_underscore by metis
  then have "CHR ''_'' \<notin> set (toLowerCase t)"
    unfolding toLowerCase_def by (metis (no_types) imageE list.set_map)
  then have "map (\<lambda>c. if isAlphanumeric c \<or> c = CHR ''_'' \<or> isSpace c then c else CHR '' '') (toLowerCase t)
      = map (\<lambda>c. if isAlphanumeric c \<or> isSpace c then c else CHR '' '') (toLowerCase t)"
    by (intro map_cong) auto
  then have "normalizeTitle (Some t) =
      take 100 (trim (collapseWhitespace
        (map (\<lambda>c. if isAlphanumeric c \<or> isSpace c then c else CHR '' '') (toLowerCase t))))"
    by (simp only: normalizeTitle_pipeline)
  also have "\<dots> = specNormalizeTitle (Some t)"
    by (simp only: specNormalizeTitle_def option.case)
  finally show ?thesis .
qed




section \<open>Edit distance and similarity\<close>

lemma editDistance_Nil2: "editDistance xs [] = length xs"
  by (cases xs) simp_all

lemma editDistance_sym: "editDistance xs ys = editDistance ys xs"
proof (induction xs ys rule: editDistance.induct)
  case (1 ys)
  then show ?case by (simp add: editDistance_Nil2)
next
  case (2 x xs)
  then show ?case by simp
next
  case (3 x xs y ys)
  then show ?case by (auto simp: min.commute min.left_commute)
qed

lemma rowOf_hd: "rowOf ps ds ys = editDistance ps ys # tl (rowOf ps ds ys)"
  by (cases ds) simp_all

lemma rowOf_last: "last (rowOf ps ds ys) = editDistance (rev ds @ ps) ys"
proof (induction ds arbitrary: ps)
  case Nil
  then show ?case by simp
next
  case (Cons d ds)
  have "rowOf (d # ps) ds ys \<noteq> []" by (cases ds) simp_all
  then show ?case using Cons [of "d # ps"] by simp
qed

lemma rowOf_empty: "rowOf ps ds [] = [length ps ..< Suc (length ps + length ds)]"
proof (induction ds arbitrary: ps)
  case Nil
  then show ?case by (simp add: editDistance_Nil2)
next
  case (Cons d ds)
  have "rowOf ps (d # ds) [] = length ps # [Suc (length ps) ..< Suc (Suc (length ps) + length ds)]"
    using Cons [of "d # ps"] by (simp add: editDistance_Nil2)
  also have "\<dots> = [length ps ..< Suc (length ps + length (d # ds))]"
  proof -
    have eq: "Suc (Suc (length ps) + length ds) = Suc (length ps + length (d # ds))" by simp
    have lt: "length ps < Suc (length ps + length (d # ds))" by simp
    show ?thesis by (simp only: eq upt_conv_Cons [OF lt])
  qed
  finally show ?case .
qed

lemma fillRow_rowOf:
  "fillRow c ds (rowOf ps ds ys) (editDistance ps (c # ys)) = tl (rowOf ps ds (c # ys))"
proof (induction ds arbitrary: ps)
  case Nil
  then show ?case by simp
next
  case (Cons d ds)
  have up: "rowOf (d # ps) ds ys = editDistance (d # ps) ys # tl (rowOf (d # ps) ds ys)"
    by (rule rowOf_hd)
  define prev where "prev = tl (rowOf (d # ps) ds ys)"
  have cell: "(if c = d then editDistance ps ys
               else min (editDistance ps ys + 1)
                      (min (editDistance ps (c # ys) + 1) (editDistance (d # ps) ys + 1)))
              = editDistance (d # ps) (c # ys)"
    by (auto simp: min.commute min.left_commute)
  have "fillRow c (d # ds) (rowOf ps (d # ds) ys) (editDistance ps (c # ys))
      = fillRow c (d # ds) (editDistance ps ys # editDistance (d # ps) ys # prev) (editDistance ps (c # ys))"
    using up by (simp add: prev_def)
  also have "\<dots> = editDistance (d # ps) (c # ys)
        # fillRow c ds (editDistance (d # ps) ys # prev) (editDistance (d # ps) (c # ys))"
    using cell by (simp add: Let_def)
  also have "editDistance (d # ps) ys # prev = rowOf (d # ps) ds ys"
    using up by (simp add: prev_def)
  also have "fillRow c ds (rowOf (d # ps) ds ys) (editDistance (d # ps) (c # ys))
      = tl (rowOf (d # ps) ds (c # ys))"
    by (rule Cons.IH)
  also have "editDistance (d # ps) (c # ys) # tl (rowOf (d # ps) ds (c # ys)) = rowOf (d # ps) ds (c # ys)"
    by (rule rowOf_hd [symmetric])
  finally show ?case by simp
qed

lemma fillRows_rowOf:
  "fillRows str1 cs (rowOf [] str1 ys) (length ys) = rowOf [] str1 (rev cs @ ys)"
proof (induction cs arbitrary: ys)
  case Nil
  then show ?case by simp
next
  case (Cons c cs)
  have "Suc (length ys) # fillRow c str1 (rowOf [] str1 ys) (Suc (length ys)) = rowOf [] str1 (c # ys)"
    using fillRow_rowOf [of c str1 "[]" ys] rowOf_hd [of "[]" str1 "c # ys"] by simp
  then show ?case using Cons [of "c # ys"] by simp
qed

lemma levenshteinDistance_editDistance:
  "levenshteinDistance str1 str2 = editDistance (rev str1) (rev str2)"
proof -
  have "[0 ..< Suc (length str1)] = rowOf [] str1 []"
    by (simp add: rowOf_empty)
  then have "fillRows str1 str2 [0 ..< Suc (length str1)] 0 = rowOf [] str1 (rev str2)"
    using fillRows_rowOf [of str1 str2 "[]"] by simp
  then show ?thesis
    by (simp add: levenshteinDistance_def rowOf_last)
qed

lemma levenshteinDistance_sym: "levenshteinDistance str1 str2 = levenshteinDistance str2 str1"
  by (simp add: levenshteinDistance_editDistance editDistance_sym)

lemma calculateStringSimilarity_sym:
  "calculateStringSimilarity str1 str2 = calculateStringSimilarity str2 str1"
  by (auto simp: calculateStringSimilarity_def Let_def levenshteinDistance_sym max.commute)

lemma calculateUrlSimilarity_sym:
  "calculateUrlSimilarity url1 url2 = calculateUrlSimilarity url2 url1"
  by (auto simp: calculateUrlSimilarity_def calculateStringSimilarity_sym)

lemma distinct_wordSet: "distinct (wordSet n s)"
  by (simp add: wordSet_def)

lemma set_wordSet: "set (wordSet n s) = {w \<in> set (split CHR '' '' s). n < length w}"
  by (auto simp: wordSet_def)

lemma length_intersection:
  "distinct words1 \<Longrightarrow> length (intersection words1 words2) = card (set words1 \<inter> set words2)"
proof -
  assume d: "distinct words1"
  then have "distinct (intersection words1 words2)" by (simp add: intersection_def)
  then have "length (intersection words1 words2) = card (set (intersection words1 words2))"
    by (simp add: distinct_card)
  also have "set (intersection words1 words2) = set words1 \<inter> set words2"
    by (auto simp: intersection_def)
  finally show ?thesis .
qed

lemma length_union: "length (union words1 words2) = card (set words1 \<union> set words2)"
  by (simp add: union_def length_remdups_card_conv)

lemma jaccardSimilarity_card:
  "distinct words1 \<Longrightarrow>
   jaccardSimilarity words1 words2
     = of_nat (card (set words1 \<inter> set words2)) / of_nat (card (set words1 \<union> set words2))"
  by (simp add: jaccardSimilarity_def length_intersection length_union)

lemma jaccardSimilarity_sym:
  "distinct words1 \<Longrightarrow> distinct words2 \<Longrightarrow>
   jaccardSimilarity words1 words2 = jaccardSimilarity words2 words1"
  by (simp add: jaccardSimilarity_card Int_commute Un_commute)

lemma calculateTitleSimilarity_sym:
  "calculateTitleSimilarity title1 title2 = calculateTitleSimilarity title2 title1"
proof -
  have j: "jaccardSimilarity (wordSet 2 title1) (wordSet 2 title2)
         = jaccardSimilarity (wordSet 2 title2) (wordSet 2 title1)"
    by (rule jaccardSimilarity_sym) (rule distinct_wordSet)+
  have u: "length (union (wordSet 2 title1) (wordSet 2 title2))
         = length (union (wordSet 2 title2) (wordSet 2 title1))"
    by (simp add: length_union Un_commute)
  show ?thesis
    unfolding calculateTitleSimilarity_def Let_def
    using j u calculateStringSimilarity_sym [of title1 title2] by auto
qed

lemma calculateContentSimilarity_sym:
  "calculateContentSimilarity content1 content2 = calculateContentSimilarity content2 content1"
proof -
  have j: "jaccardSimilarity (wordSet 3 content1) (wordSet 3 content2)
         = jaccardSimilarity (wordSet 3 content2) (wordSet 3 content1)"
    by (rule jaccardSimilarity_sym) (rule distinct_wordSet)+
  have u: "length (union (wordSet 3 content1) (wordSet 3 content2))
         = length (union (wordSet 3 content2) (wordSet 3 content1))"
    by (simp add: length_union Un_commute)
  show ?thesis
    unfolding calculateContentSimilarity_def Let_def
    using j u by auto
qed

section \<open>Title similarity\<close>

text \<open>
  Claim C3, as stated, fails in two places. Two different titles in which no word is
  longer than two characters get the similarity 0, whatever their edit distance:
  \<^verbatim>\<open>ab cd\<close> and \<^verbatim>\<open>ab ce\<close> have the edit-distance similarity 4/5. And the empty title
  compared with itself gets 0 and not 1. Both strings of the first pair are
  normalized titles, and the empty string is the normalized form of \<^verbatim>\<open>!!!\<close>.
\<close>

theorem calculateTitleSimilarity_counterexample:
  "calculateTitleSimilarity ''ab cd'' ''ab ce'' = 0
   \<and> 1 - of_nat (levenshteinDistance ''ab cd'' ''ab ce'') / of_nat (max (length ''ab cd'') (length ''ab ce''))
       = (4 / 5 :: rat)
   \<and> normalizeTitle (Some ''ab cd'') = ''ab cd'' \<and> normalizeTitle (Some ''ab ce'') = ''ab ce''
   \<and> calculateTitleSimilarity [] [] = 0 \<and> normalizeTitle (Some ''!!!'') = []"
  by code_simp

text \<open>
  Claim C3, amended. For all normalized title strings \<open>a\<close> and \<open>b\<close>:
  \<open>calculateTitleSimilarity\<close> returns 0 when one of them is empty and 1 when they are
  identical and not empty; for two different non-empty titles of which at least one
  has a word longer than 2 characters it returns the maximum of the Jaccard
  similarity over the sets of words longer than 2 characters and of
  \<open>1 - levenshtein(a, b) / max(len(a), len(b))\<close> on the full strings, so that the edit
  distance alone suffices when the word sets are disjoint.
\<close>

theorem calculateTitleSimilarity_characterisation:
  "(a = [] \<or> b = [] \<longrightarrow> calculateTitleSimilarity a b = 0)
   \<and> (a \<noteq> [] \<longrightarrow> calculateTitleSimilarity a a = 1)
   \<and> (a \<noteq> [] \<and> b \<noteq> [] \<and> a \<noteq> b
        \<and> {w \<in> set (split CHR '' '' a). 2 < length w} \<union> {w \<in> set (split CHR '' '' b). 2 < length w} \<noteq> {}
      \<longrightarrow> calculateTitleSimilarity a b =
            max (of_nat (card ({w \<in> set (split CHR '' '' a). 2 < length w}
                                \<inter> {w \<in> set (split CHR '' '' b). 2 < length w}))
                 / of_nat (card ({w \<in> set (split CHR '' '' a). 2 < length w}
                                \<union> {w \<in> set (split CHR '' '' b). 2 < length w})))
                (1 - of_nat (levenshteinDistance a b) / of_nat (max (length a) (length b))))"
proof -
  have empty: "a = [] \<or> b = [] \<longrightarrow> calculateTitleSimilarity a b = 0"
    by (auto simp: calculateTitleSimilarity_def)
  have same: "a \<noteq> [] \<longrightarrow> calculateTitleSimilarity a a = 1"
    by (simp add: calculateTitleSimilarity_def)
  have other: "calculateTitleSimilarity a b =
            max (of_nat (card ({w \<in> set (split CHR '' '' a). 2 < length w}
                                \<inter> {w \<in> set (split CHR '' '' b). 2 < length w}))
                 / of_nat (card ({w \<in> set (split CHR '' '' a). 2 < length w}
                                \<union> {w \<in> set (split CHR '' '' b). 2 < length w})))
                (1 - of_nat (levenshteinDistance a b) / of_nat (max (length a) (length b)))"
    if ne: "a \<noteq> []" "b \<noteq> []" "a \<noteq> b"
      and words: "{w \<in> set (split CHR '' '' a). 2 < length w} \<union> {w \<in> set (split CHR '' '' b). 2 < length w} \<noteq> {}"
  proof -
    have "set (union (wordSet 2 a) (wordSet 2 b)) \<noteq> {}"
      using words by (simp add: union_def set_wordSet)
    then have u: "length (union (wordSet 2 a) (wordSet 2 b)) \<noteq> 0"
      by auto
    have s: "calculateStringSimilarity a b
           = 1 - of_nat (levenshteinDistance a b) / of_nat (max (length a) (length b))"
      using ne by (simp add: calculateStringSimilarity_def Let_def)
    have j: "jaccardSimilarity (wordSet 2 a) (wordSet 2 b)
           = of_nat (card ({w \<in> set (split CHR '' '' a). 2 < length w}
                                \<inter> {w \<in> set (split CHR '' '' b). 2 < length w}))
                 / of_nat (card ({w \<in> set (split CHR '' '' a). 2 < length w}
                                \<union> {w \<in> set (split CHR '' '' b). 2 < length w}))"
      by (simp only: jaccardSimilarity_card [OF distinct_wordSet] set_wordSet)
    show ?thesis
      using ne u by (simp add: calculateTitleSimilarity_def Let_def s j)
  qed
  from empty same other show ?thesis by blast
qed

theorem calculateTitleSimilarity_characterisation_witness:
  "''robot dog'' \<noteq> [] \<and> ''robot dogs'' \<noteq> [] \<and> ''robot dog'' \<noteq> ''robot dogs''
   \<and> {w \<in> set (split CHR '' '' ''robot dog''). 2 < length w}
       \<union> {w \<in> set (split CHR '' '' ''robot dogs''). 2 < length w} \<noteq> {}
   \<and> calculateTitleSimilarity ''robot dog'' ''robot dogs'' =
        max (of_nat (card ({w \<in> set (split CHR '' '' ''robot dog''). 2 < length w}
                            \<inter> {w \<in> set (split CHR '' '' ''robot dogs''). 2 < length w}))
             / of_nat (card ({w \<in> set (split CHR '' '' ''robot dog''). 2 < length w}
                            \<union> {w \<in> set (split CHR '' '' ''robot dogs''). 2 < length w})))
            (1 - of_nat (levenshteinDistance ''robot dog'' ''robot dogs'')
                 / of_nat (max (length ''robot dog'') (length ''robot dogs'')))
   \<and> calculateTitleSimilarity ''robot dog'' ''robot dogs'' = 9 / 10"
proof -
  have sp: "split CHR '' '' ''robot dog'' = [''robot'', ''dog'']"
    by code_simp
  have words: "{w \<in> set (split CHR '' '' ''robot dog''). 2 < length w}
       \<union> {w \<in> set (split CHR '' '' ''robot dogs''). 2 < length w} \<noteq> {}"
  proof -
    have "''robot'' \<in> {w \<in> set (split CHR '' '' ''robot dog''). 2 < length w}"
      by (simp add: sp)
    then show ?thesis by blast
  qed
  have ne: "''robot dog'' \<noteq> [] \<and> ''robot dogs'' \<noteq> [] \<and> ''robot dog'' \<noteq> ''robot dogs''"
    by simp
  have v: "calculateTitleSimilarity ''robot dog'' ''robot dogs'' = 9 / 10"
    by code_simp
  show ?thesis
    using ne words v calculateTitleSimilarity_characterisation [of "''robot dog''" "''robot dogs''"]
    by blast
qed

section \<open>One step of the deduplication loop\<close>

lemma urlCheck_eq:
  "urlCheck rt config st a =
     (urlDuplicate rt config (seenUrls st) a,
      if enableUrlDedup config \<and> url a \<noteq> [] \<and> \<not> urlDuplicate rt config (seenUrls st) a
      then st\<lparr>seenUrls := seenUrls st @ [normalizeUrl rt (Some (url a))]\<rparr> else st)"
  by (auto simp: urlCheck_def urlDuplicate_def Let_def list_ex_iff)

lemma titleCheck_eq:
  "titleCheck config st a =
     (titleDuplicate config (seenTitleHashes st) (processedTitles st) a,
      if enableTitleDedup config \<and> title a \<noteq> []
         \<and> \<not> titleDuplicate config (seenTitleHashes st) (processedTitles st) a
      then st\<lparr>seenTitleHashes := seenTitleHashes st @ [simpleHash (normalizeTitle (Some (title a)))],
              processedTitles := processedTitles st @ [normalizeTitle (Some (title a))]\<rparr>
      else st)"
  by (auto simp: titleCheck_def titleDuplicate_def Let_def list_ex_iff)

lemma contentCheck_eq:
  "contentCheck config st a \<longleftrightarrow>
     enableContentDedup config \<and> content a \<noteq> [] \<and>
     (\<exists>e \<in> set (uniqueArticles st).
        contentSimilarityThreshold config
          \<le> calculateContentSimilarity (normalizeContent (Some (content a)))
               (normalizeContent (Some (content e))))"
  by (auto simp: contentCheck_def Let_def list_ex_iff)

lemma dedupStep_eq:
  "dedupStep rt config i st a =
     (if urlDuplicate rt config (seenUrls st) a then st
      else if titleDuplicate config (seenTitleHashes st) (processedTitles st) a
           then afterUrl rt config st a
      else if contentCheck config st a then afterTitle rt config st a
      else (afterTitle rt config st a)
             \<lparr>uniqueArticles := uniqueArticles st @ [withInfo rt i a]\<rparr>)"
  by (simp add: dedupStep_def afterUrl_def afterTitle_def urlCheck_eq titleCheck_eq contentCheck_eq
      Let_def)

lemma afterUrl_fields [simp]:
  "uniqueArticles (afterUrl rt config st a) = uniqueArticles st"
  "seenTitleHashes (afterUrl rt config st a) = seenTitleHashes st"
  "processedTitles (afterUrl rt config st a) = processedTitles st"
  by (simp_all add: afterUrl_def urlCheck_eq)

lemma afterTitle_fields [simp]:
  "uniqueArticles (afterTitle rt config st a) = uniqueArticles st"
  "seenUrls (afterTitle rt config st a) = seenUrls (afterUrl rt config st a)"
  by (simp_all add: afterTitle_def titleCheck_eq)

lemma seenUrls_afterUrl:
  "seenUrls (afterUrl rt config st a) =
     (if enableUrlDedup config \<and> url a \<noteq> [] \<and> \<not> urlDuplicate rt config (seenUrls st) a
      then seenUrls st @ [normalizeUrl rt (Some (url a))] else seenUrls st)"
  by (simp add: afterUrl_def urlCheck_eq)

lemma titles_afterTitle:
  "processedTitles (afterTitle rt config st a) =
     (if enableTitleDedup config \<and> title a \<noteq> []
         \<and> \<not> titleDuplicate config (seenTitleHashes st) (processedTitles st) a
      then processedTitles st @ [normalizeTitle (Some (title a))] else processedTitles st)"
  "seenTitleHashes (afterTitle rt config st a) =
     (if enableTitleDedup config \<and> title a \<noteq> []
         \<and> \<not> titleDuplicate config (seenTitleHashes st) (processedTitles st) a
      then seenTitleHashes st @ [simpleHash (normalizeTitle (Some (title a)))] else seenTitleHashes st)"
  by (simp_all add: afterTitle_def titleCheck_eq)

lemma withInfo_fields [simp]:
  "url (withInfo rt i a) = url a"
  "title (withInfo rt i a) = title a"
  "content (withInfo rt i a) = content a"
  "publishedAt (withInfo rt i a) = publishedAt a"
  "deduplicationInfo (withInfo rt i a) \<noteq> None"
  "map_option originalIndex (deduplicationInfo (withInfo rt i a)) = Some i"
  by (simp_all add: withInfo_def)

text \<open>An article whose normalized URL is already recorded leaves no trace.\<close>

lemma dedupStep_known_url:
  assumes "enableUrlDedup config" "url a \<noteq> []" "normalizeUrl rt (Some (url a)) \<in> set (seenUrls st)"
  shows "dedupStep rt config i st a = st"
  using assms by (simp add: dedupStep_eq urlDuplicate_def)

lemma dedupLoop_known_urls:
  assumes "enableUrlDedup config"
    and "\<forall>a \<in> set articles. url a \<noteq> [] \<and> normalizeUrl rt (Some (url a)) \<in> set (seenUrls st)"
  shows "dedupLoop rt config i st articles = st"
  using assms(2)
proof (induction articles arbitrary: i)
  case Nil
  then show ?case by simp
next
  case (Cons a articles)
  then have "dedupStep rt config i st a = st"
    using assms(1) by (simp add: dedupStep_known_url)
  then show ?case using Cons by simp
qed

lemma dedupLoop_append:
  "dedupLoop rt config i st (xs @ ys) =
     dedupLoop rt config (i + length xs) (dedupLoop rt config i st xs) ys"
  by (induction xs arbitrary: i st) simp_all

text \<open>The first article of a run is always accepted.\<close>

lemma dedupStep_initial:
  "uniqueArticles (dedupStep rt config i initialState a) = [withInfo rt i a]"
  "enableUrlDedup config \<Longrightarrow> url a \<noteq> [] \<Longrightarrow>
     seenUrls (dedupStep rt config i initialState a) = [normalizeUrl rt (Some (url a))]"
  by (simp_all add: dedupStep_eq urlDuplicate_def titleDuplicate_def contentCheck_eq
      initialState_def seenUrls_afterUrl)

lemma urlsRecorded_step:
  assumes "urlsRecorded rt config st"
  shows "urlsRecorded rt config (dedupStep rt config i st a)"
  using assms
  by (auto simp: urlsRecorded_def dedupStep_eq seenUrls_afterUrl)

lemma urlsRecorded_loop:
  "urlsRecorded rt config st \<Longrightarrow> urlsRecorded rt config (dedupLoop rt config i st articles)"
  by (induction articles arbitrary: i st) (simp_all add: urlsRecorded_step)

lemma urlsRecorded_initial: "urlsRecorded rt config initialState"
  by (simp add: urlsRecorded_def initialState_def)

text \<open>Every entry of the result carries the position of its article in the input.\<close>

lemma dedupStep_unique:
  "uniqueArticles (dedupStep rt config i st a) = uniqueArticles st
   \<or> uniqueArticles (dedupStep rt config i st a) = uniqueArticles st @ [withInfo rt i a]"
  by (simp add: dedupStep_eq)

lemma dedupLoop_indices:
  assumes "e \<in> set (uniqueArticles (dedupLoop rt config i st articles))"
  shows "e \<in> set (uniqueArticles st)
    \<or> (\<exists>j. i \<le> j \<and> j < i + length articles \<and> map_option originalIndex (deduplicationInfo e) = Some j)"
  using assms
proof (induction articles arbitrary: i st)
  case Nil
  then show ?case by simp
next
  case (Cons a articles)
  from Cons.IH [of "Suc i" "dedupStep rt config i st a"] Cons.prems
  consider "e \<in> set (uniqueArticles (dedupStep rt config i st a))"
    | j where "Suc i \<le> j" "j < Suc i + length articles"
        "map_option originalIndex (deduplicationInfo e) = Some j"
    by auto
  then show ?case
  proof cases
    case 1
    then have "e \<in> set (uniqueArticles st) \<or> e = withInfo rt i a"
      using dedupStep_unique [of rt config i st a] by auto
    then show ?thesis
    proof
      assume "e \<in> set (uniqueArticles st)"
      then show ?thesis by simp
    next
      assume "e = withInfo rt i a"
      then have "map_option originalIndex (deduplicationInfo e) = Some i" by simp
      then show ?thesis by (intro disjI2 exI [of _ i]) simp
    qed
  next
    case 2
    then show ?thesis by (intro disjI2 exI [of _ j]) simp
  qed
qed

section \<open>Which member of a group of duplicates survives\<close>

lemma sortBy_single: "sortBy cmp [x] = [x]"
  by (simp add: sortBy_def)

lemma performDeduplication_same_url:
  assumes "enableUrlDedup config" "url a \<noteq> []"
    and "\<forall>b \<in> set rest. url b \<noteq> [] \<and> normalizeUrl rt (Some (url b)) = normalizeUrl rt (Some (url a))"
  shows "performDeduplication rt config (a # rest) = [withInfo rt 0 a]"
proof -
  let ?st = "dedupStep rt config 0 initialState a"
  have "\<forall>b \<in> set rest. url b \<noteq> [] \<and> normalizeUrl rt (Some (url b)) \<in> set (seenUrls ?st)"
    using assms by (simp add: dedupStep_initial)
  then have "dedupLoop rt config (Suc 0) ?st rest = ?st"
    using assms(1) by (rule dedupLoop_known_urls [rotated])
  then show ?thesis
    by (simp add: performDeduplication_def dedupStep_initial)
qed

text \<open>Runs on two short articles that share a URL, with URL deduplication switched
  off and with a negative limit.\<close>

lemma same_url_notes:
  "normalizeUrl exampleRuntime (Some (url robotNote))
     = normalizeUrl exampleRuntime (Some (url chipNoteSameUrl))"
  by code_simp

lemma url_dedup_off_run:
  "performDeduplication exampleRuntime (loadDeduplicationConfig exampleRuntime urlDedupOffVars)
      [robotNote, chipNoteSameUrl]
     = [withInfo exampleRuntime 0 robotNote, withInfo exampleRuntime 1 chipNoteSameUrl]"
  by code_simp

lemma url_dedup_off_result:
  "deduplicateArticles exampleRuntime urlDedupOffVars [robotNote, chipNoteSameUrl]
     = [withInfo exampleRuntime 0 robotNote, withInfo exampleRuntime 1 chipNoteSameUrl]"
  by code_simp

lemma negative_limit_same_url:
  "deduplicateArticles exampleRuntime negativeLimitVars [robotNote, chipNoteSameUrl] = []"
  by code_simp

text \<open>
  Claim C1, as stated, fails: the Deduplicator keeps the member of a group of
  duplicates that comes first in the input, not the one published most recently.
  Of two articles whose URLs normalize to the same string, the older one survives
  when it comes first. With URL deduplication switched off both of two such articles
  survive, and with a negative limit none does.
\<close>

theorem older_survives_counterexample:
  "normalizeUrl exampleRuntime (Some (url olderArticle)) = normalizeUrl exampleRuntime (Some (url newerArticle))
   \<and> publishedAt olderArticle = Some 100 \<and> publishedAt newerArticle = Some 200
   \<and> deduplicateArticles exampleRuntime noVars [olderArticle, newerArticle]
       = [withInfo exampleRuntime 0 olderArticle]
   \<and> normalizeUrl exampleRuntime (Some (url robotNote))
       = normalizeUrl exampleRuntime (Some (url chipNoteSameUrl))
   \<and> deduplicateArticles exampleRuntime urlDedupOffVars [robotNote, chipNoteSameUrl]
       = [withInfo exampleRuntime 0 robotNote, withInfo exampleRuntime 1 chipNoteSameUrl]
   \<and> deduplicateArticles exampleRuntime negativeLimitVars [robotNote, chipNoteSameUrl] = []"
proof -
  have n: "normalizeUrl exampleRuntime (Some (url olderArticle))
      = normalizeUrl exampleRuntime (Some (url newerArticle))"
    by code_simp
  have d: "publishedAt olderArticle = Some 100" "publishedAt newerArticle = Some 200"
    by (simp_all add: olderArticle_def newerArticle_def mkArticle_def)
  have r: "deduplicateArticles exampleRuntime noVars [olderArticle, newerArticle]
       = [withInfo exampleRuntime 0 olderArticle]"
    by code_simp
  show ?thesis
    by (intro conjI; (fact n d r same_url_notes url_dedup_off_result negative_limit_same_url))
qed

text \<open>
  Claim C1, amended. With URL deduplication enabled and a limit of at least one
  article, whenever all articles of the input have URLs that normalize to the same
  string, exactly one survivor is retained in the deduplicated set, and it is the
  first of them in input order, whatever the publication dates; in particular, of
  two articles whose URLs normalize to the same string only the first of the two
  survives.
\<close>

theorem first_of_same_url_survives:
  assumes "enableUrlDedup (loadDeduplicationConfig rt vars)"
    and "1 \<le> dedupMaxArticles (loadDeduplicationConfig rt vars)"
    and "url a \<noteq> []"
    and "\<forall>b \<in> set rest. url b \<noteq> [] \<and> normalizeUrl rt (Some (url b)) = normalizeUrl rt (Some (url a))"
  shows "deduplicateArticles rt vars (a # rest) = [withInfo rt 0 a]"
proof -
  have "performDeduplication rt (loadDeduplicationConfig rt vars) (a # rest) = [withInfo rt 0 a]"
    using assms(1,3,4) by (rule performDeduplication_same_url)
  then show ?thesis
    using assms(2)
    by (simp add: deduplicateArticles_def Let_def sortArticlesByDate_def sortBy_single sliceTo_def)
qed

theorem first_of_same_url_survives_witness:
  "enableUrlDedup (loadDeduplicationConfig exampleRuntime noVars)
   \<and> 1 \<le> dedupMaxArticles (loadDeduplicationConfig exampleRuntime noVars)
   \<and> url newerArticle \<noteq> [] \<and> url olderArticle \<noteq> []
   \<and> normalizeUrl exampleRuntime (Some (url olderArticle))
       = normalizeUrl exampleRuntime (Some (url newerArticle))
   \<and> deduplicateArticles exampleRuntime noVars [newerArticle, olderArticle]
       = [withInfo exampleRuntime 0 newerArticle]"
proof -
  have h1: "enableUrlDedup (loadDeduplicationConfig exampleRuntime noVars)"
    by (simp add: loadDeduplicationConfig_def noVars_def)
  have h2: "1 \<le> dedupMaxArticles (loadDeduplicationConfig exampleRuntime noVars)"
    by (simp add: loadDeduplicationConfig_def noVars_def intOr_def)
  have h3: "url newerArticle \<noteq> []"
    by (simp add: newerArticle_def mkArticle_def)
  have n: "normalizeUrl exampleRuntime (Some (url olderArticle))
             = normalizeUrl exampleRuntime (Some (url newerArticle))"
    by code_simp
  have h4: "\<forall>b \<in> set [olderArticle]. url b \<noteq> []
         \<and> normalizeUrl exampleRuntime (Some (url b)) = normalizeUrl exampleRuntime (Some (url newerArticle))"
    using n by (simp add: olderArticle_def mkArticle_def)
  have h5: "url olderArticle \<noteq> []"
    by (simp add: olderArticle_def mkArticle_def)
  have r: "deduplicateArticles exampleRuntime noVars [newerArticle, olderArticle]
       = [withInfo exampleRuntime 0 newerArticle]"
    by (rule first_of_same_url_survives [OF h1 h2 h3 h4])
  show ?thesis
    by (intro conjI; fact)
qed

section \<open>What the loop records as anchors\<close>

text \<open>
  Claim C5. Only accepted articles should become comparison anchors. In the code the
  URL check records the normalized URL of an article before the title check and
  the content check have run. With the three articles below, the second passes the
  URL check, is then rejected by the title check as a duplicate of the first, and
  its URL stays recorded; the third, which shares that URL and is a duplicate of no
  accepted article, is rejected against it. Without the second article the third
  is accepted.
\<close>

theorem rejected_article_url_stays_anchor:
  "performDeduplication exampleRuntime defaultDedupConfig [robotArticle, robotCopy]
     = [withInfo exampleRuntime 0 robotArticle]
   \<and> seenUrls (dedupLoop exampleRuntime defaultDedupConfig 0 initialState [robotArticle, robotCopy])
     = [''https://a.com/one'', ''https://b.com/two'']
   \<and> performDeduplication exampleRuntime defaultDedupConfig [robotArticle, robotCopy, chipArticle]
     = [withInfo exampleRuntime 0 robotArticle]
   \<and> performDeduplication exampleRuntime defaultDedupConfig [robotArticle, chipArticle]
     = [withInfo exampleRuntime 0 robotArticle, withInfo exampleRuntime 1 chipArticle]"
  by code_simp

section \<open>URL similarity and identical normalized URLs\<close>

lemma accepted_url_recorded:
  assumes "a \<in> set (performDeduplication rt config articles)" "enableUrlDedup config" "url a \<noteq> []"
  shows "normalizeUrl rt (Some (url a)) \<in> set (seenUrls (dedupLoop rt config 0 initialState articles))"
proof -
  have "urlsRecorded rt config (dedupLoop rt config 0 initialState articles)"
    by (intro urlsRecorded_loop urlsRecorded_initial)
  then show ?thesis
    using assms by (simp add: urlsRecorded_def performDeduplication_def)
qed

lemma duplicate_url_excluded:
  assumes on: "enableUrlDedup config"
    and acc: "a \<in> set (performDeduplication rt config pre)"
    and urls: "url a \<noteq> []" "url b \<noteq> []"
    and same: "normalizeUrl rt (Some (url a)) = normalizeUrl rt (Some (url b))"
  shows "performDeduplication rt config (pre @ [b]) = performDeduplication rt config pre"
    and "\<forall>e \<in> set (performDeduplication rt config (pre @ b # post)).
           map_option originalIndex (deduplicationInfo e) \<noteq> Some (length pre)"
proof -
  let ?st = "dedupLoop rt config 0 initialState pre"
  have known: "normalizeUrl rt (Some (url b)) \<in> set (seenUrls ?st)"
    using accepted_url_recorded [OF acc on urls(1)] same by simp
  have step: "dedupStep rt config (length pre) ?st b = ?st"
    using on urls(2) known by (rule dedupStep_known_url)
  show "performDeduplication rt config (pre @ [b]) = performDeduplication rt config pre"
    by (simp add: performDeduplication_def dedupLoop_append step)
  have run: "dedupLoop rt config 0 initialState (pre @ b # post)
           = dedupLoop rt config (Suc (length pre)) ?st post"
    by (simp add: dedupLoop_append step)
  show "\<forall>e \<in> set (performDeduplication rt config (pre @ b # post)).
           map_option originalIndex (deduplicationInfo e) \<noteq> Some (length pre)"
  proof
    fix e
    assume "e \<in> set (performDeduplication rt config (pre @ b # post))"
    then have e: "e \<in> set (uniqueArticles (dedupLoop rt config (Suc (length pre)) ?st post))"
      by (simp add: performDeduplication_def run)
    from dedupLoop_indices [OF e]
    consider "e \<in> set (uniqueArticles ?st)"
      | j where "Suc (length pre) \<le> j" "map_option originalIndex (deduplicationInfo e) = Some j"
      by auto
    then show "map_option originalIndex (deduplicationInfo e) \<noteq> Some (length pre)"
    proof cases
      case 1
      from dedupLoop_indices [OF 1]
      have "\<exists>j. j < length pre \<and> map_option originalIndex (deduplicationInfo e) = Some j"
        by (auto simp: initialState_def)
      then show ?thesis by auto
    next
      case 2
      then show ?thesis by auto
    qed
  qed
qed

text \<open>
  Claim C8, as stated, fails on the empty string, which is the normalized form of the
  URL \<^verbatim>\<open>/\<close>: compared with itself it gets the similarity 0 and not 1, and compared
  with a URL of another domain it gets 0 and not 0.1. And with URL deduplication
  switched off, an article whose normalized URL is that of an accepted article is
  not excluded.
\<close>

theorem calculateUrlSimilarity_counterexample:
  "normalizeUrl exampleRuntime (Some ''/'') = []
   \<and> calculateUrlSimilarity [] [] = 0
   \<and> domainOf [] \<noteq> domainOf ''https://site.com/a''
   \<and> calculateUrlSimilarity [] ''https://site.com/a'' = 0
   \<and> normalizeUrl exampleRuntime (Some (url robotNote))
       = normalizeUrl exampleRuntime (Some (url chipNoteSameUrl))
   \<and> performDeduplication exampleRuntime (loadDeduplicationConfig exampleRuntime urlDedupOffVars)
        [robotNote, chipNoteSameUrl]
       = [withInfo exampleRuntime 0 robotNote, withInfo exampleRuntime 1 chipNoteSameUrl]"
proof -
  have e1: "normalizeUrl exampleRuntime (Some ''/'') = []"
    by code_simp
  have e2: "calculateUrlSimilarity [] [] = 0"
    by (simp add: calculateUrlSimilarity_def)
  have e3: "domainOf [] \<noteq> domainOf ''https://site.com/a''"
    by code_simp
  have e4: "calculateUrlSimilarity [] ''https://site.com/a'' = 0"
    by (simp add: calculateUrlSimilarity_def)
  show ?thesis
    by (intro conjI; (fact e1 e2 e3 e4 same_url_notes url_dedup_off_run))
qed

text \<open>
  Claim C8, amended. For all normalized URL strings \<open>a\<close> and \<open>b\<close>:
  \<open>calculateUrlSimilarity\<close> returns 0 when one of them is empty; for non-empty strings
  it returns 1 when they are identical, the fixed value 0.1 when their domains (the
  third segment when split on \<^verbatim>\<open>/\<close>) differ, and otherwise
  \<open>1 - levenshtein(a, b) / max(len(a), len(b))\<close>. In particular, with URL
  deduplication enabled, for all articles A and B with non-empty URLs and identical
  normalized URLs, the similarity of the two normalized URLs is 1 unless they are
  empty, and when A has been accepted, B is excluded from the deduplicated set:
  appending B to the input changes nothing, and no entry of the result stems from
  the position of B, whatever follows.
\<close>

theorem calculateUrlSimilarity_and_exclusion:
  "(a = [] \<or> b = [] \<longrightarrow> calculateUrlSimilarity a b = 0)
   \<and> (a \<noteq> [] \<longrightarrow> calculateUrlSimilarity a a = 1)
   \<and> (a \<noteq> [] \<and> b \<noteq> [] \<and> a \<noteq> b \<and> domainOf a \<noteq> domainOf b \<longrightarrow> calculateUrlSimilarity a b = 1 / 10)
   \<and> (a \<noteq> [] \<and> b \<noteq> [] \<and> a \<noteq> b \<and> domainOf a = domainOf b \<longrightarrow>
        calculateUrlSimilarity a b = 1 - of_nat (levenshteinDistance a b) / of_nat (max (length a) (length b)))
   \<and> (enableUrlDedup config \<and> A \<in> set (performDeduplication rt config pre)
        \<and> url A \<noteq> [] \<and> url B \<noteq> []
        \<and> normalizeUrl rt (Some (url A)) = normalizeUrl rt (Some (url B)) \<longrightarrow>
        (normalizeUrl rt (Some (url A)) \<noteq> [] \<longrightarrow>
           calculateUrlSimilarity (normalizeUrl rt (Some (url A))) (normalizeUrl rt (Some (url B))) = 1)
        \<and> performDeduplication rt config (pre @ [B]) = performDeduplication rt config pre
        \<and> (\<forall>post. \<forall>e \<in> set (performDeduplication rt config (pre @ B # post)).
              map_option originalIndex (deduplicationInfo e) \<noteq> Some (length pre)))"
proof -
  have empty: "a = [] \<or> b = [] \<longrightarrow> calculateUrlSimilarity a b = 0"
    by (auto simp: calculateUrlSimilarity_def)
  have same: "a \<noteq> [] \<longrightarrow> calculateUrlSimilarity a a = 1"
    by (simp add: calculateUrlSimilarity_def)
  have differ: "a \<noteq> [] \<and> b \<noteq> [] \<and> a \<noteq> b \<and> domainOf a \<noteq> domainOf b \<longrightarrow> calculateUrlSimilarity a b = 1 / 10"
    by (simp add: calculateUrlSimilarity_def)
  have edit: "a \<noteq> [] \<and> b \<noteq> [] \<and> a \<noteq> b \<and> domainOf a = domainOf b \<longrightarrow>
        calculateUrlSimilarity a b = 1 - of_nat (levenshteinDistance a b) / of_nat (max (length a) (length b))"
    by (simp add: calculateUrlSimilarity_def calculateStringSimilarity_def Let_def)
  have excl: "enableUrlDedup config \<and> A \<in> set (performDeduplication rt config pre)
        \<and> url A \<noteq> [] \<and> url B \<noteq> []
        \<and> normalizeUrl rt (Some (url A)) = normalizeUrl rt (Some (url B)) \<longrightarrow>
        (normalizeUrl rt (Some (url A)) \<noteq> [] \<longrightarrow>
           calculateUrlSimilarity (normalizeUrl rt (Some (url A))) (normalizeUrl rt (Some (url B))) = 1)
        \<and> performDeduplication rt config (pre @ [B]) = performDeduplication rt config pre
        \<and> (\<forall>post. \<forall>e \<in> set (performDeduplication rt config (pre @ B # post)).
              map_option originalIndex (deduplicationInfo e) \<noteq> Some (length pre))"
  proof (intro impI, elim conjE)
    assume h: "enableUrlDedup config" "A \<in> set (performDeduplication rt config pre)"
      "url A \<noteq> []" "url B \<noteq> []"
      "normalizeUrl rt (Some (url A)) = normalizeUrl rt (Some (url B))"
    have "normalizeUrl rt (Some (url A)) \<noteq> [] \<longrightarrow>
           calculateUrlSimilarity (normalizeUrl rt (Some (url A))) (normalizeUrl rt (Some (url B))) = 1"
      using h(5) by (simp add: calculateUrlSimilarity_def)
    moreover have "performDeduplication rt config (pre @ [B]) = performDeduplication rt config pre"
      using h by (rule duplicate_url_excluded(1))
    moreover have "\<forall>post. \<forall>e \<in> set (performDeduplication rt config (pre @ B # post)).
              map_option originalIndex (deduplicationInfo e) \<noteq> Some (length pre)"
      using duplicate_url_excluded(2) [OF h] by blast
    ultimately show "(normalizeUrl rt (Some (url A)) \<noteq> [] \<longrightarrow>
           calculateUrlSimilarity (normalizeUrl rt (Some (url A))) (normalizeUrl rt (Some (url B))) = 1)
        \<and> performDeduplication rt config (pre @ [B]) = performDeduplication rt config pre
        \<and> (\<forall>post. \<forall>e \<in> set (performDeduplication rt config (pre @ B # post)).
              map_option originalIndex (deduplicationInfo e) \<noteq> Some (length pre))"
      by blast
  qed
  from empty same differ edit excl show ?thesis by blast
qed

theorem calculateUrlSimilarity_and_exclusion_witness:
  "''https://site.com/a'' \<noteq> [] \<and> ''https://site.com/b'' \<noteq> []
   \<and> ''https://site.com/a'' \<noteq> ''https://site.com/b''
   \<and> domainOf ''https://site.com/a'' = domainOf ''https://site.com/b''
   \<and> calculateUrlSimilarity ''https://site.com/a'' ''https://site.com/b''
       = 1 - of_nat (levenshteinDistance ''https://site.com/a'' ''https://site.com/b'')
             / of_nat (max (length ''https://site.com/a'') (length ''https://site.com/b''))
   \<and> ''https://a.com/one'' \<noteq> [] \<and> ''https://site.com/a'' \<noteq> ''https://a.com/one''
   \<and> domainOf ''https://site.com/a'' \<noteq> domainOf ''https://a.com/one''
   \<and> calculateUrlSimilarity ''https://site.com/a'' ''https://a.com/one'' = 1 / 10
   \<and> enableUrlDedup defaultDedupConfig
   \<and> withInfo exampleRuntime 0 olderArticle
        \<in> set (performDeduplication exampleRuntime defaultDedupConfig [olderArticle])
   \<and> url (withInfo exampleRuntime 0 olderArticle) \<noteq> [] \<and> url newerArticle \<noteq> []
   \<and> normalizeUrl exampleRuntime (Some (url (withInfo exampleRuntime 0 olderArticle)))
       = normalizeUrl exampleRuntime (Some (url newerArticle))
   \<and> performDeduplication exampleRuntime defaultDedupConfig ([olderArticle] @ [newerArticle])
       = performDeduplication exampleRuntime defaultDedupConfig [olderArticle]"
proof -
  have d1: "domainOf ''https://site.com/a'' = domainOf ''https://site.com/b''"
    by code_simp
  have d2: "domainOf ''https://site.com/a'' \<noteq> domainOf ''https://a.com/one''"
    by code_simp
  have ne: "''https://site.com/a'' \<noteq> []" "''https://site.com/b'' \<noteq> []"
      "''https://site.com/a'' \<noteq> ''https://site.com/b''"
      "''https://a.com/one'' \<noteq> []" "''https://site.com/a'' \<noteq> ''https://a.com/one''"
    by simp_all
  have on: "enableUrlDedup defaultDedupConfig"
    by (simp add: defaultDedupConfig_def loadDeduplicationConfig_def noVars_def)
  have acc: "withInfo exampleRuntime 0 olderArticle
        \<in> set (performDeduplication exampleRuntime defaultDedupConfig [olderArticle])"
    by (simp add: performDeduplication_def dedupStep_initial)
  have urls: "url (withInfo exampleRuntime 0 olderArticle) \<noteq> []" "url newerArticle \<noteq> []"
    by (simp_all add: olderArticle_def newerArticle_def mkArticle_def)
  have n: "normalizeUrl exampleRuntime (Some (url (withInfo exampleRuntime 0 olderArticle)))
       = normalizeUrl exampleRuntime (Some (url newerArticle))"
    by code_simp
  have same: "calculateUrlSimilarity ''https://site.com/a'' ''https://site.com/b''
       = 1 - of_nat (levenshteinDistance ''https://site.com/a'' ''https://site.com/b'')
             / of_nat (max (length ''https://site.com/a'') (length ''https://site.com/b''))"
    using ne d1
      calculateUrlSimilarity_and_exclusion [of "''https://site.com/a''" "''https://site.com/b''"]
    by simp
  have differ: "calculateUrlSimilarity ''https://site.com/a'' ''https://a.com/one'' = 1 / 10"
    using ne d2
      calculateUrlSimilarity_and_exclusion [of "''https://site.com/a''" "''https://a.com/one''"]
    by simp
  have excl: "performDeduplication exampleRuntime defaultDedupConfig ([olderArticle] @ [newerArticle])
       = performDeduplication exampleRuntime defaultDedupConfig [olderArticle]"
    using on acc urls n
      calculateUrlSimilarity_and_exclusion [of "[]" "[]" defaultDedupConfig
        "withInfo exampleRuntime 0 olderArticle" exampleRuntime "[olderArticle]" newerArticle]
    by blast
  show ?thesis
    by (intro conjI; fact)
qed

section \<open>The caps of the Diversity Selector\<close>

lemma filter_insertBy:
  "length (filter P (insertBy cmp x ys)) = length (filter P (x # ys))"
  by (induction ys) auto

lemma filter_sortBy: "length (filter P (sortBy cmp xs)) = length (filter P xs)"
  by (induction xs) (simp_all add: sortBy_def filter_insertBy)

lemma length_sortBy: "length (sortBy cmp xs) = length xs"
  using filter_sortBy [of "\<lambda>x. True" cmp xs] by simp

lemma filter_take_le: "length (filter P (take n xs)) \<le> length (filter P xs)"
proof -
  have "length (filter P xs) = length (filter P (take n xs)) + length (filter P (drop n xs))"
    by (metis append_take_drop_id filter_append length_append)
  then show ?thesis by simp
qed

lemma filter_sliceTo_le: "length (filter P (sliceTo n xs)) \<le> length (filter P xs)"
  by (simp add: sliceTo_def filter_take_le)

lemma length_sliceTo: "0 \<le> n \<Longrightarrow> int (length (sliceTo n xs)) \<le> n"
  by (simp add: sliceTo_def)

text \<open>The invariant of the loop: each counter holds the number of admitted articles
  with that key, and no key has more admitted articles than its cap.\<close>

lemma diversityLoop_caps:
  assumes "\<forall>k. length (filter (\<lambda>a. sourceKey a = k) diverse) = (case sourceCounts k of None \<Rightarrow> 0 | Some n \<Rightarrow> n)"
    and "\<forall>k. length (filter (\<lambda>a. categoryKey a = k) diverse) = (case categoryCounts k of None \<Rightarrow> 0 | Some n \<Rightarrow> n)"
    and "\<forall>k. int (length (filter (\<lambda>a. sourceKey a = k) diverse)) \<le> maxSameSource ds"
    and "\<forall>k. int (length (filter (\<lambda>a. categoryKey a = k) diverse)) \<le> maxSameCategory ds"
  shows "(\<forall>k. int (length (filter (\<lambda>a. sourceKey a = k)
                  (diversityLoop ds diverse sourceCounts categoryCounts articles))) \<le> maxSameSource ds)
       \<and> (\<forall>k. int (length (filter (\<lambda>a. categoryKey a = k)
                  (diversityLoop ds diverse sourceCounts categoryCounts articles))) \<le> maxSameCategory ds)"
  using assms
proof (induction articles arbitrary: diverse sourceCounts categoryCounts)
  case Nil
  then show ?case by simp
next
  case (Cons a articles)
  let ?sc = "countOf sourceCounts (sourceKey a)"
  let ?cc = "countOf categoryCounts (categoryKey a)"
  show ?case
  proof (cases "below ?sc (maxSameSource ds) \<and> below ?cc (maxSameCategory ds)")
    case False
    then have "diversityLoop ds diverse sourceCounts categoryCounts (a # articles)
             = diversityLoop ds diverse sourceCounts categoryCounts articles"
      by (auto simp: Let_def)
    then show ?thesis using Cons.IH [OF Cons.prems] by simp
  next
    case True
    then obtain n m where n: "?sc = Some n" "int n < maxSameSource ds"
      and m: "?cc = Some m" "int m < maxSameCategory ds"
      by (auto simp: below_def split: option.splits)
    have ns: "length (filter (\<lambda>b. sourceKey b = sourceKey a) diverse) = n"
      using n(1) Cons.prems(1) by (auto simp: countOf_def split: option.splits if_splits)
    have mc: "length (filter (\<lambda>b. categoryKey b = categoryKey a) diverse) = m"
      using m(1) Cons.prems(2) by (auto simp: countOf_def split: option.splits if_splits)
    let ?diverse = "diverse @ [a]"
    let ?sourceCounts = "sourceCounts(sourceKey a \<mapsto> n + 1)"
    let ?categoryCounts = "categoryCounts(categoryKey a \<mapsto> m + 1)"
    have step: "diversityLoop ds diverse sourceCounts categoryCounts (a # articles)
              = diversityLoop ds ?diverse ?sourceCounts ?categoryCounts articles"
      using True n m by (simp add: Let_def)
    have p1: "\<forall>k. length (filter (\<lambda>b. sourceKey b = k) ?diverse)
                = (case ?sourceCounts k of None \<Rightarrow> 0 | Some n \<Rightarrow> n)"
      using Cons.prems(1) ns by auto
    have p2: "\<forall>k. length (filter (\<lambda>b. categoryKey b = k) ?diverse)
                = (case ?categoryCounts k of None \<Rightarrow> 0 | Some n \<Rightarrow> n)"
      using Cons.prems(2) mc by auto
    have p3: "\<forall>k. int (length (filter (\<lambda>b. sourceKey b = k) ?diverse)) \<le> maxSameSource ds"
    proof
      fix k
      show "int (length (filter (\<lambda>b. sourceKey b = k) ?diverse)) \<le> maxSameSource ds"
      proof (cases "k = sourceKey a")
        case True
        then show ?thesis using ns n(2) by simp
      next
        case False
        then show ?thesis using Cons.prems(3) by simp
      qed
    qed
    have p4: "\<forall>k. int (length (filter (\<lambda>b. categoryKey b = k) ?diverse)) \<le> maxSameCategory ds"
    proof
      fix k
      show "int (length (filter (\<lambda>b. categoryKey b = k) ?diverse)) \<le> maxSameCategory ds"
      proof (cases "k = categoryKey a")
        case True
        then show ?thesis using mc m(2) by simp
      next
        case False
        then show ?thesis using Cons.prems(4) by simp
      qed
    qed
    show ?thesis
      unfolding step by (rule Cons.IH [OF p1 p2 p3 p4])
  qed
qed

lemma filter_length_mono:
  "(\<And>x. P x \<Longrightarrow> Q x) \<Longrightarrow> length (filter P xs) \<le> length (filter Q xs)"
  by (induction xs) auto

lemma source_le_sourceKey:
  "length (filter (\<lambda>a. source a = s) xs)
     \<le> length (filter (\<lambda>a. sourceKey a = (if s \<noteq> [] then s else ''unknown'')) xs)"
  by (rule filter_length_mono) (simp add: sourceKey_def)

lemma type_le_categoryKey:
  "length (filter (\<lambda>a. type a = c) xs)
     \<le> length (filter (\<lambda>a. categoryKey a = (if c \<noteq> [] then c else ''unknown'')) xs)"
  by (rule filter_length_mono) (simp add: categoryKey_def)

lemma ensureArticleDiversity_caps:
  assumes "preferDiverseSources (diversitySettings config)"
    and "0 \<le> maxSameSource (diversitySettings config)" "0 \<le> maxSameCategory (diversitySettings config)"
  shows "int (length (filter (\<lambda>a. source a = s) (ensureArticleDiversity articles config)))
           \<le> maxSameSource (diversitySettings config)"
    and "int (length (filter (\<lambda>a. type a = c) (ensureArticleDiversity articles config)))
           \<le> maxSameCategory (diversitySettings config)"
proof -
  let ?ds = "diversitySettings config"
  let ?out = "diversityLoop ?ds [] Map.empty Map.empty (sortBy scoreCompare articles)"
  have out: "ensureArticleDiversity articles config = ?out"
    using assms(1) by (simp add: ensureArticleDiversity_def)
  have caps: "(\<forall>k. int (length (filter (\<lambda>a. sourceKey a = k) ?out)) \<le> maxSameSource ?ds)
       \<and> (\<forall>k. int (length (filter (\<lambda>a. categoryKey a = k) ?out)) \<le> maxSameCategory ?ds)"
    using assms(2,3) by (intro diversityLoop_caps) simp_all
  have "int (length (filter (\<lambda>a. source a = s) ?out))
      \<le> int (length (filter (\<lambda>a. sourceKey a = (if s \<noteq> [] then s else ''unknown'')) ?out))"
    using source_le_sourceKey [of s ?out] by simp
  also have "\<dots> \<le> maxSameSource ?ds" using caps by blast
  finally show "int (length (filter (\<lambda>a. source a = s) (ensureArticleDiversity articles config)))
           \<le> maxSameSource (diversitySettings config)"
    by (simp add: out)
  have "int (length (filter (\<lambda>a. type a = c) ?out))
      \<le> int (length (filter (\<lambda>a. categoryKey a = (if c \<noteq> [] then c else ''unknown'')) ?out))"
    using type_le_categoryKey [of c ?out] by simp
  also have "\<dots> \<le> maxSameCategory ?ds" using caps by blast
  finally show "int (length (filter (\<lambda>a. type a = c) (ensureArticleDiversity articles config)))
           \<le> maxSameCategory (diversitySettings config)"
    by (simp add: out)
qed

text \<open>
  Claim C4, as stated, fails for a valid configuration: with \<open>preferDiverseSources\<close>
  switched off, four qualifying articles of one source are all selected although
  \<open>maxSameSource\<close> is 3. It also fails for a negative cap, which the loader accepts:
  no selection has fewer than zero articles, and a negative \<open>maxArticles\<close> cuts one
  article off the end.
\<close>

theorem diversity_caps_counterexample:
  "maxSameSource (diversitySettings (loadSelectionConfig exampleRuntime diversityOffVars)) = 3
   \<and> length (filter (\<lambda>a. source a = ''Reuters'')
        (selectTopArticles (loadSelectionConfig exampleRuntime diversityOffVars)
           [mkScored ''Reuters'' ''news'' 90, mkScored ''Reuters'' ''news'' 80,
            mkScored ''Reuters'' ''news'' 70, mkScored ''Reuters'' ''news'' 60])) = 4
   \<and> maxSameSource (diversitySettings (loadSelectionConfig exampleRuntime negativeSourceCapVars)) = - 1
   \<and> selectTopArticles (loadSelectionConfig exampleRuntime negativeSourceCapVars)
        [mkScored ''Reuters'' ''news'' 90] = []
   \<and> maxSameCategory (diversitySettings (loadSelectionConfig exampleRuntime negativeCategoryCapVars)) = - 1
   \<and> selectTopArticles (loadSelectionConfig exampleRuntime negativeCategoryCapVars)
        [mkScored ''Reuters'' ''news'' 90] = []
   \<and> maxArticles (loadSelectionConfig exampleRuntime negativeMaxArticlesVars) = - 1
   \<and> map finalScore (selectTopArticles (loadSelectionConfig exampleRuntime negativeMaxArticlesVars)
        [mkScored ''Reuters'' ''news'' 90, mkScored ''BBC'' ''news'' 80]) = [90]"
proof -
  have c1: "maxSameSource (diversitySettings (loadSelectionConfig exampleRuntime diversityOffVars)) = 3"
    by code_simp
  have c2: "length (filter (\<lambda>a. source a = ''Reuters'')
        (selectTopArticles (loadSelectionConfig exampleRuntime diversityOffVars)
           [mkScored ''Reuters'' ''news'' 90, mkScored ''Reuters'' ''news'' 80,
            mkScored ''Reuters'' ''news'' 70, mkScored ''Reuters'' ''news'' 60])) = 4"
    by code_simp
  have c3: "maxSameSource (diversitySettings (loadSelectionConfig exampleRuntime negativeSourceCapVars)) = - 1"
    by code_simp
  have c4: "selectTopArticles (loadSelectionConfig exampleRuntime negativeSourceCapVars)
        [mkScored ''Reuters'' ''news'' 90] = []"
    by code_simp
  have c5: "maxSameCategory (diversitySettings (loadSelectionConfig exampleRuntime negativeCategoryCapVars)) = - 1"
    by code_simp
  have c6: "selectTopArticles (loadSelectionConfig exampleRuntime negativeCategoryCapVars)
        [mkScored ''Reuters'' ''news'' 90] = []"
    by code_simp
  have c7: "maxArticles (loadSelectionConfig exampleRuntime negativeMaxArticlesVars) = - 1"
    by code_simp
  have c8: "map finalScore (selectTopArticles (loadSelectionConfig exampleRuntime negativeMaxArticlesVars)
        [mkScored ''Reuters'' ''news'' 90, mkScored ''BBC'' ''news'' 80]) = [90]"
    by code_simp
  show ?thesis
    by (intro conjI; (fact c1 c2 c3 c4 c5 c6 c7 c8))
qed

text \<open>
  Claim C4, amended. For every input list of scored articles and every configuration
  with \<open>preferDiverseSources\<close> switched on and caps that are not negative, the output
  of the Diversity Selector contains at most \<open>maxSameSource\<close> articles from any one
  source, at most \<open>maxSameCategory\<close> articles from any one category, and at most
  \<open>maxArticles\<close> articles in total.
\<close>

theorem diversity_caps:
  assumes "preferDiverseSources (diversitySettings config)"
    and "0 \<le> maxSameSource (diversitySettings config)"
    and "0 \<le> maxSameCategory (diversitySettings config)"
    and "0 \<le> maxArticles config"
  shows "int (length (filter (\<lambda>a. source a = s) (selectTopArticles config scored)))
           \<le> maxSameSource (diversitySettings config)
    \<and> int (length (filter (\<lambda>a. type a = c) (selectTopArticles config scored)))
           \<le> maxSameCategory (diversitySettings config)
    \<and> int (length (selectTopArticles config scored)) \<le> maxArticles config"
proof -
  let ?diverse = "ensureArticleDiversity (filterByMinimumScore scored config) config"
  have sel: "selectTopArticles config scored = sliceTo (maxArticles config) (sortBy scoreCompare ?diverse)"
    by (simp add: selectTopArticles_def)
  have "length (filter (\<lambda>a. source a = s) (selectTopArticles config scored))
      \<le> length (filter (\<lambda>a. source a = s) ?diverse)"
    unfolding sel using filter_sliceTo_le [of _ "maxArticles config" "sortBy scoreCompare ?diverse"]
    by (simp add: filter_sortBy)
  then have src: "int (length (filter (\<lambda>a. source a = s) (selectTopArticles config scored)))
           \<le> maxSameSource (diversitySettings config)"
    using ensureArticleDiversity_caps(1) [OF assms(1-3), of s "filterByMinimumScore scored config"]
    by linarith
  have "length (filter (\<lambda>a. type a = c) (selectTopArticles config scored))
      \<le> length (filter (\<lambda>a. type a = c) ?diverse)"
    unfolding sel using filter_sliceTo_le [of _ "maxArticles config" "sortBy scoreCompare ?diverse"]
    by (simp add: filter_sortBy)
  then have cat: "int (length (filter (\<lambda>a. type a = c) (selectTopArticles config scored)))
           \<le> maxSameCategory (diversitySettings config)"
    using ensureArticleDiversity_caps(2) [OF assms(1-3), of c "filterByMinimumScore scored config"]
    by linarith
  have total: "int (length (selectTopArticles config scored)) \<le> maxArticles config"
    unfolding sel using assms(4) by (rule length_sliceTo)
  from src cat total show ?thesis by blast
qed

theorem diversity_caps_witness:
  "preferDiverseSources (diversitySettings (loadSelectionConfig exampleRuntime noVars))
   \<and> 0 \<le> maxSameSource (diversitySettings (loadSelectionConfig exampleRuntime noVars))
   \<and> 0 \<le> maxSameCategory (diversitySettings (loadSelectionConfig exampleRuntime noVars))
   \<and> 0 \<le> maxArticles (loadSelectionConfig exampleRuntime noVars)
   \<and> maxSameSource (diversitySettings (loadSelectionConfig exampleRuntime noVars)) = 3
   \<and> int (length (filter (\<lambda>a. source a = ''Reuters'')
        (selectTopArticles (loadSelectionConfig exampleRuntime noVars)
           [mkScored ''Reuters'' ''news'' 90, mkScored ''Reuters'' ''news'' 80,
            mkScored ''Reuters'' ''news'' 70, mkScored ''Reuters'' ''news'' 60,
            mkScored ''Reuters'' ''news'' 50])))
       \<le> maxSameSource (diversitySettings (loadSelectionConfig exampleRuntime noVars))
   \<and> map finalScore
        (selectTopArticles (loadSelectionConfig exampleRuntime noVars)
           [mkScored ''Reuters'' ''news'' 90, mkScored ''Reuters'' ''news'' 80,
            mkScored ''Reuters'' ''news'' 70, mkScored ''Reuters'' ''news'' 60,
            mkScored ''Reuters'' ''news'' 50]) = [90, 80, 70]"
proof -
  have h1: "preferDiverseSources (diversitySettings (loadSelectionConfig exampleRuntime noVars))"
    by (simp add: loadSelectionConfig_def noVars_def)
  have h2: "0 \<le> maxSameSource (diversitySettings (loadSelectionConfig exampleRuntime noVars))"
    by (simp add: loadSelectionConfig_def noVars_def intOr_def)
  have h3: "0 \<le> maxSameCategory (diversitySettings (loadSelectionConfig exampleRuntime noVars))"
    by (simp add: loadSelectionConfig_def noVars_def intOr_def)
  have h4: "0 \<le> maxArticles (loadSelectionConfig exampleRuntime noVars)"
    by (simp add: loadSelectionConfig_def noVars_def intOr_def)
  have cap: "maxSameSource (diversitySettings (loadSelectionConfig exampleRuntime noVars)) = 3"
    by (simp add: loadSelectionConfig_def noVars_def intOr_def)
  have sel: "map finalScore
        (selectTopArticles (loadSelectionConfig exampleRuntime noVars)
           [mkScored ''Reuters'' ''news'' 90, mkScored ''Reuters'' ''news'' 80,
            mkScored ''Reuters'' ''news'' 70, mkScored ''Reuters'' ''news'' 60,
            mkScored ''Reuters'' ''news'' 50]) = [90, 80, 70]"
    by code_simp
  have bound: "int (length (filter (\<lambda>a. source a = ''Reuters'')
        (selectTopArticles (loadSelectionConfig exampleRuntime noVars)
           [mkScored ''Reuters'' ''news'' 90, mkScored ''Reuters'' ''news'' 80,
            mkScored ''Reuters'' ''news'' 70, mkScored ''Reuters'' ''news'' 60,
            mkScored ''Reuters'' ''news'' 50])))
       \<le> maxSameSource (diversitySettings (loadSelectionConfig exampleRuntime noVars))"
    using diversity_caps [OF h1 h2 h3 h4] by (rule conjunct1)
  show ?thesis
    by (intro conjI; fact)
qed

section \<open>Running the Deduplicator on its own output\<close>

subsection \<open>The clash relation\<close>

lemma calculateContentSimilarity_empty [simp]:
  "calculateContentSimilarity c [] = 0" "calculateContentSimilarity [] c = 0"
  by (simp_all add: calculateContentSimilarity_def)

lemma normalizeContent_empty [simp]: "normalizeContent (Some []) = []"
  by (simp add: normalizeContent_def)

lemma clash_withInfo [simp]:
  "clash rt config (withInfo rt i a) b = clash rt config a b"
  "clash rt config a (withInfo rt i b) = clash rt config a b"
  by (simp_all add: clash_def)

lemma clash_sym:
  assumes "enableContentDedup config \<longrightarrow> 0 < contentSimilarityThreshold config"
  shows "clash rt config a b \<longleftrightarrow> clash rt config b a"
proof -
  have content: "(enableContentDedup config \<and> content y \<noteq> [] \<and>
        contentSimilarityThreshold config
          \<le> calculateContentSimilarity (normalizeContent (Some (content y)))
               (normalizeContent (Some (content x))))
     \<longleftrightarrow> (enableContentDedup config \<and> content x \<noteq> [] \<and> content y \<noteq> [] \<and>
        contentSimilarityThreshold config
          \<le> calculateContentSimilarity (normalizeContent (Some (content x)))
               (normalizeContent (Some (content y))))" for x y
    using assms
    by (cases "content x = []")
       (auto simp: calculateContentSimilarity_sym [of "normalizeContent (Some (content y))"])
  have url: "calculateUrlSimilarity (normalizeUrl rt (Some (url b))) (normalizeUrl rt (Some (url a)))
           = calculateUrlSimilarity (normalizeUrl rt (Some (url a))) (normalizeUrl rt (Some (url b)))"
    by (rule calculateUrlSimilarity_sym)
  have ttl: "calculateTitleSimilarity (normalizeTitle (Some (title b))) (normalizeTitle (Some (title a)))
           = calculateTitleSimilarity (normalizeTitle (Some (title a))) (normalizeTitle (Some (title b)))"
    by (rule calculateTitleSimilarity_sym)
  show ?thesis
    unfolding clash_def content [of a b] content [of b a] url ttl
    by (auto simp: calculateContentSimilarity_sym [of "normalizeContent (Some (content a))"])
qed

subsection \<open>The invariant of the first run\<close>

lemma titlesRecorded_step:
  assumes "titlesRecorded config st"
  shows "titlesRecorded config (dedupStep rt config i st a)"
  using assms
  by (auto simp: titlesRecorded_def dedupStep_eq titles_afterTitle)

lemma no_clash_with_accepted:
  assumes rec: "urlsRecorded rt config st" "titlesRecorded config st"
    and nu: "\<not> urlDuplicate rt config (seenUrls st) a"
    and nt: "\<not> titleDuplicate config (seenTitleHashes st) (processedTitles st) a"
    and nc: "\<not> contentCheck config st a"
    and x: "x \<in> set (uniqueArticles st)"
  shows "\<not> clash rt config x a"
proof -
  have u: "\<not> (enableUrlDedup config \<and> url x \<noteq> [] \<and> url a \<noteq> [] \<and>
        (normalizeUrl rt (Some (url a)) = normalizeUrl rt (Some (url x))
         \<or> urlSimilarityThreshold config
              \<le> calculateUrlSimilarity (normalizeUrl rt (Some (url a))) (normalizeUrl rt (Some (url x)))))"
    using rec(1) nu x by (auto simp: urlsRecorded_def urlDuplicate_def)
  have t: "\<not> (enableTitleDedup config \<and> title x \<noteq> [] \<and> title a \<noteq> [] \<and>
        (simpleHash (normalizeTitle (Some (title a))) = simpleHash (normalizeTitle (Some (title x)))
         \<or> titleSimilarityThreshold config
              \<le> calculateTitleSimilarity (normalizeTitle (Some (title a))) (normalizeTitle (Some (title x)))))"
    using rec(2) nt x by (auto simp: titlesRecorded_def titleDuplicate_def)
  have c: "\<not> (enableContentDedup config \<and> content a \<noteq> [] \<and>
        contentSimilarityThreshold config
          \<le> calculateContentSimilarity (normalizeContent (Some (content a)))
               (normalizeContent (Some (content x))))"
    using nc x by (auto simp: contentCheck_eq)
  from u t c show ?thesis unfolding clash_def by blast
qed

lemma dedupInv_step:
  assumes "dedupInv rt config st"
  shows "dedupInv rt config (dedupStep rt config i st a)"
proof -
  have rec: "urlsRecorded rt config st" "titlesRecorded config st"
    and srt: "sorted_wrt (\<lambda>a b. \<not> clash rt config a b) (uniqueArticles st)"
    using assms by (simp_all add: dedupInv_def)
  have "sorted_wrt (\<lambda>a b. \<not> clash rt config a b) (uniqueArticles (dedupStep rt config i st a))"
  proof (cases "\<not> urlDuplicate rt config (seenUrls st) a
      \<and> \<not> titleDuplicate config (seenTitleHashes st) (processedTitles st) a
      \<and> \<not> contentCheck config st a")
    case True
    then have "\<forall>x \<in> set (uniqueArticles st). \<not> clash rt config x a"
      using no_clash_with_accepted [OF rec] by blast
    then show ?thesis
      using True srt by (simp add: dedupStep_eq sorted_wrt_append)
  next
    case False
    then have "uniqueArticles (dedupStep rt config i st a) = uniqueArticles st"
      by (auto simp: dedupStep_eq)
    then show ?thesis using srt by simp
  qed
  then show ?thesis
    using urlsRecorded_step [OF rec(1)] titlesRecorded_step [OF rec(2)]
    by (simp add: dedupInv_def)
qed

lemma dedupInv_loop:
  "dedupInv rt config st \<Longrightarrow> dedupInv rt config (dedupLoop rt config i st articles)"
  by (induction articles arbitrary: i st) (simp_all add: dedupInv_step)

lemma dedupInv_initial: "dedupInv rt config initialState"
  unfolding dedupInv_def
  by (intro conjI urlsRecorded_initial) (simp_all add: titlesRecorded_def initialState_def)

lemma performDeduplication_no_clash:
  "sorted_wrt (\<lambda>a b. \<not> clash rt config a b) (performDeduplication rt config articles)"
  using dedupInv_loop [OF dedupInv_initial, of rt config 0 articles]
  by (simp add: dedupInv_def performDeduplication_def)

lemma stamped_withInfo: "stamped rt (withInfo rt i a)"
  unfolding stamped_def by blast

lemma stamped_loop:
  assumes "\<forall>a \<in> set (uniqueArticles st). stamped rt a"
  shows "\<forall>a \<in> set (uniqueArticles (dedupLoop rt config i st articles)). stamped rt a"
  using assms
proof (induction articles arbitrary: i st)
  case Nil
  then show ?case by simp
next
  case (Cons a articles)
  have "\<forall>x \<in> set (uniqueArticles (dedupStep rt config i st a)). stamped rt x"
    using Cons.prems dedupStep_unique [of rt config i st a] stamped_withInfo [of rt i a]
    by auto
  then show ?case using Cons.IH by simp
qed

lemma performDeduplication_stamped:
  "\<forall>a \<in> set (performDeduplication rt config articles). stamped rt a"
  unfolding performDeduplication_def
  by (rule stamped_loop) (simp add: initialState_def)

subsection \<open>Sorting and cutting keep the articles free of clashes\<close>

lemma set_insertBy: "set (insertBy cmp x ys) = insert x (set ys)"
  by (induction ys) auto

lemma set_sortBy: "set (sortBy cmp xs) = set xs"
  by (induction xs) (simp_all add: sortBy_def set_insertBy)

lemma sorted_wrt_insertBy:
  assumes "\<And>x y. R x y \<Longrightarrow> R y x" "sorted_wrt R ys" "\<forall>y \<in> set ys. R x y"
  shows "sorted_wrt R (insertBy cmp x ys)"
  using assms(2,3)
proof (induction ys)
  case Nil
  then show ?case by simp
next
  case (Cons y ys)
  then show ?case using assms(1) by (auto simp: set_insertBy)
qed

lemma sorted_wrt_sortBy:
  assumes "\<And>x y. R x y \<Longrightarrow> R y x" "sorted_wrt R xs"
  shows "sorted_wrt R (sortBy cmp xs)"
  using assms(2)
proof (induction xs)
  case Nil
  then show ?case by (simp add: sortBy_def)
next
  case (Cons x xs)
  have "sorted_wrt R (insertBy cmp x (sortBy cmp xs))"
    using Cons assms(1) by (intro sorted_wrt_insertBy) (auto simp: set_sortBy)
  then show ?case by (simp add: sortBy_def)
qed

lemma sorted_wrt_sliceTo: "sorted_wrt R xs \<Longrightarrow> sorted_wrt R (sliceTo n xs)"
  by (simp add: sliceTo_def)

lemma set_sliceTo: "set (sliceTo n xs) \<subseteq> set xs"
  by (auto simp: sliceTo_def dest: in_set_takeD)

subsection \<open>The second run accepts every article\<close>

lemma accept_without_clash:
  assumes within: "anchorsWithin rt config st P"
    and free: "\<forall>a \<in> set P. \<not> clash rt config a b"
  shows "uniqueArticles (dedupStep rt config i st b) = uniqueArticles st @ [withInfo rt i b]"
    and "anchorsWithin rt config (dedupStep rt config i st b) (P @ [b])"
proof -
  have nu: "\<not> urlDuplicate rt config (seenUrls st) b"
  proof
    assume d: "urlDuplicate rt config (seenUrls st) b"
    then obtain e where e: "e \<in> set (seenUrls st)"
      "normalizeUrl rt (Some (url b)) = e
       \<or> urlSimilarityThreshold config \<le> calculateUrlSimilarity (normalizeUrl rt (Some (url b))) e"
      by (auto simp: urlDuplicate_def)
    then obtain a where a: "a \<in> set P" "url a \<noteq> []" "e = normalizeUrl rt (Some (url a))"
      using within by (auto simp: anchorsWithin_def)
    have "clash rt config a b"
      using d e(2) a(2,3) by (auto simp: clash_def urlDuplicate_def)
    then show False using free a(1) by blast
  qed
  have nt: "\<not> titleDuplicate config (seenTitleHashes st) (processedTitles st) b"
  proof
    assume d: "titleDuplicate config (seenTitleHashes st) (processedTitles st) b"
    then consider h where "h \<in> set (seenTitleHashes st)" "simpleHash (normalizeTitle (Some (title b))) = h"
      | e where "e \<in> set (processedTitles st)"
          "titleSimilarityThreshold config \<le> calculateTitleSimilarity (normalizeTitle (Some (title b))) e"
      by (auto simp: titleDuplicate_def)
    then obtain a where "a \<in> set P" "clash rt config a b"
    proof cases
      case 1
      then obtain a where "a \<in> set P" "title a \<noteq> []" "h = simpleHash (normalizeTitle (Some (title a)))"
        using within by (auto simp: anchorsWithin_def)
      moreover from this have "clash rt config a b"
        using d 1(2) by (auto simp: clash_def titleDuplicate_def)
      ultimately show ?thesis using that by blast
    next
      case 2
      then obtain a where "a \<in> set P" "title a \<noteq> []" "e = normalizeTitle (Some (title a))"
        using within by (auto simp: anchorsWithin_def)
      moreover from this have "clash rt config a b"
        using d 2(2) by (auto simp: clash_def titleDuplicate_def)
      ultimately show ?thesis using that by blast
    qed
    then show False using free by blast
  qed
  have nc: "\<not> contentCheck config st b"
  proof
    assume "contentCheck config st b"
    then obtain u where u: "enableContentDedup config" "content b \<noteq> []" "u \<in> set (uniqueArticles st)"
      "contentSimilarityThreshold config
          \<le> calculateContentSimilarity (normalizeContent (Some (content b)))
               (normalizeContent (Some (content u)))"
      by (auto simp: contentCheck_eq)
    then obtain a where "a \<in> set P" "content u = content a"
      using within by (auto simp: anchorsWithin_def)
    then have "a \<in> set P" "clash rt config a b"
      using u by (auto simp: clash_def)
    then show False using free by blast
  qed
  show "uniqueArticles (dedupStep rt config i st b) = uniqueArticles st @ [withInfo rt i b]"
    using nu nt nc by (simp add: dedupStep_eq)
  show "anchorsWithin rt config (dedupStep rt config i st b) (P @ [b])"
    using nu nt nc within
    unfolding anchorsWithin_def
    by (simp add: dedupStep_eq seenUrls_afterUrl titles_afterTitle)
qed

lemma second_run_accepts:
  assumes "anchorsWithin rt config st P"
    and "\<forall>a \<in> set P. \<forall>b \<in> set articles. \<not> clash rt config a b"
    and "sorted_wrt (\<lambda>a b. \<not> clash rt config a b) articles"
  shows "uniqueArticles (dedupLoop rt config i st articles)
           = uniqueArticles st @ map (\<lambda>(j, b). withInfo rt j b) (enumerate i articles)"
  using assms
proof (induction articles arbitrary: i st P)
  case Nil
  then show ?case by simp
next
  case (Cons b articles)
  have free: "\<forall>a \<in> set P. \<not> clash rt config a b"
    using Cons.prems(2) by simp
  note step = accept_without_clash [OF Cons.prems(1) free, of i]
  have "\<forall>a \<in> set (P @ [b]). \<forall>c \<in> set articles. \<not> clash rt config a c"
    using Cons.prems(2,3) by auto
  moreover have "sorted_wrt (\<lambda>a b. \<not> clash rt config a b) articles"
    using Cons.prems(3) by simp
  ultimately have "uniqueArticles (dedupLoop rt config (Suc i) (dedupStep rt config i st b) articles)
      = uniqueArticles (dedupStep rt config i st b)
          @ map (\<lambda>(j, b). withInfo rt j b) (enumerate (Suc i) articles)"
    using Cons.IH [OF step(2)] by blast
  then show ?case by (simp add: step(1))
qed

lemma performDeduplication_accepts_all:
  assumes "sorted_wrt (\<lambda>a b. \<not> clash rt config a b) articles"
  shows "performDeduplication rt config articles
           = map (\<lambda>(j, b). withInfo rt j b) (enumerate 0 articles)"
proof -
  have "anchorsWithin rt config initialState []"
    by (simp add: anchorsWithin_def initialState_def)
  then show ?thesis
    using second_run_accepts [of rt config initialState "[]" articles 0] assms
    by (simp add: performDeduplication_def initialState_def)
qed

lemma withInfo_stamped:
  assumes "stamped rt a"
  shows "withInfo rt j a
    = a\<lparr>deduplicationInfo := map_option (\<lambda>d. d\<lparr>originalIndex := j\<rparr>) (deduplicationInfo a)\<rparr>"
proof -
  from assms obtain i b where "a = withInfo rt i b" by (auto simp: stamped_def)
  then show ?thesis by (simp add: withInfo_def)
qed

lemma map_withInfo_reindexed:
  assumes "\<forall>a \<in> set articles. stamped rt a"
  shows "map (\<lambda>(j, b). withInfo rt j b) (enumerate i articles)
       = map (\<lambda>(j, a). a\<lparr>deduplicationInfo := map_option (\<lambda>d. d\<lparr>originalIndex := j\<rparr>) (deduplicationInfo a)\<rparr>)
           (enumerate i articles)"
  using assms by (induction articles arbitrary: i) (simp_all add: withInfo_stamped)

subsection \<open>Sorting a sorted list\<close>

lemma sortBy_Cons: "sortBy cmp (x # xs) = insertBy cmp x (sortBy cmp xs)"
  by (simp add: sortBy_def)

lemma successively_tail: "successively P (x # xs) \<Longrightarrow> successively P xs"
  by (cases xs) simp_all

lemma successively_insertBy:
  assumes "\<And>x y. \<not> cmp x y \<le> 0 \<Longrightarrow> cmp y x \<le> 0" "successively (\<lambda>x y. cmp x y \<le> 0) ys"
  shows "successively (\<lambda>x y. cmp x y \<le> 0) (insertBy cmp x ys)"
  using assms(2)
proof (induction ys)
  case Nil
  then show ?case by simp
next
  case (Cons y ys)
  show ?case
  proof (cases "cmp x y \<le> 0")
    case True
    then show ?thesis using Cons.prems by (simp add: successively_Cons)
  next
    case False
    then have yx: "cmp y x \<le> 0" by (rule assms(1))
    have tl: "successively (\<lambda>x y. cmp x y \<le> 0) (insertBy cmp x ys)"
      using Cons.IH successively_tail [OF Cons.prems] by simp
    show ?thesis
    proof (cases ys)
      case Nil
      then show ?thesis using False yx by simp
    next
      case (Cons z zs)
      then show ?thesis
        using False yx tl Cons.prems \<open>successively (\<lambda>x y. cmp x y \<le> 0) (y # ys)\<close>
        by (auto simp: successively_Cons)
    qed
  qed
qed

lemma successively_sortBy:
  assumes "\<And>x y. \<not> cmp x y \<le> 0 \<Longrightarrow> cmp y x \<le> 0"
  shows "successively (\<lambda>x y. cmp x y \<le> 0) (sortBy cmp xs)"
  by (induction xs) (simp_all add: sortBy_Cons successively_insertBy assms, simp add: sortBy_def)

lemma sortBy_sorted:
  "successively (\<lambda>x y. cmp x y \<le> 0) xs \<Longrightarrow> sortBy cmp xs = xs"
proof (induction xs)
  case Nil
  then show ?case by (simp add: sortBy_def)
next
  case (Cons x xs)
  then have "sortBy cmp xs = xs" using successively_tail [of _ x xs] by simp
  then show ?case using Cons.prems by (cases xs) (simp_all add: sortBy_Cons)
qed

lemma successively_take: "successively P xs \<Longrightarrow> successively P (take n xs)"
  by (metis append_take_drop_id successively_append_iff)

lemma dateCompare_total: "\<not> dateCompare x y \<le> 0 \<Longrightarrow> dateCompare y x \<le> 0"
  by (auto simp: dateCompare_def split: option.splits)

lemma sortArticlesByDate_ordered:
  "successively (\<lambda>x y. dateCompare x y \<le> 0) (sortArticlesByDate articles)"
  unfolding sortArticlesByDate_def by (rule successively_sortBy) (rule dateCompare_total)

lemma successively_same_dates:
  assumes "length ys = length xs" "\<forall>i < length xs. publishedAt (ys ! i) = publishedAt (xs ! i)"
    and "successively (\<lambda>x y. dateCompare x y \<le> 0) xs"
  shows "successively (\<lambda>x y. dateCompare x y \<le> 0) ys"
  using assms unfolding successively_conv_nth dateCompare_def by simp

lemma reindexed_dates:
  "length (reindexed xs) = length xs"
  "i < length xs \<Longrightarrow> publishedAt (reindexed xs ! i) = publishedAt (xs ! i)"
  by (simp_all add: reindexed_def nth_enumerate_eq)

subsection \<open>Idempotence\<close>

lemma deduplicateArticles_Nil [simp]: "deduplicateArticles rt vars [] = []"
  by (simp add: deduplicateArticles_def)

lemma reindexed_Nil [simp]: "reindexed [] = []"
  by (simp add: reindexed_def)

lemma second_run:
  assumes limit: "0 \<le> dedupMaxArticles config"
    and thr: "enableContentDedup config \<longrightarrow> 0 < contentSimilarityThreshold config"
    and T: "T = sliceTo (dedupMaxArticles config) (sortArticlesByDate (performDeduplication rt config articles))"
  shows "sliceTo (dedupMaxArticles config) (sortArticlesByDate (performDeduplication rt config T))
           = reindexed T"
proof -
  let ?U = "performDeduplication rt config articles"
  let ?R = "\<lambda>a b. \<not> clash rt config a b"
  have sym: "\<And>x y. ?R x y \<Longrightarrow> ?R y x"
    using clash_sym [OF thr] by blast
  have "sorted_wrt ?R (sortArticlesByDate ?U)"
    unfolding sortArticlesByDate_def
    using sym performDeduplication_no_clash by (rule sorted_wrt_sortBy)
  then have free: "sorted_wrt ?R T"
    unfolding T by (rule sorted_wrt_sliceTo)
  have "set T \<subseteq> set ?U"
    unfolding T using set_sliceTo [of "dedupMaxArticles config" "sortArticlesByDate ?U"]
    by (simp add: sortArticlesByDate_def set_sortBy)
  then have st: "\<forall>a \<in> set T. stamped rt a"
    using performDeduplication_stamped [of rt config articles] by blast
  have run: "performDeduplication rt config T = reindexed T"
    using performDeduplication_accepts_all [OF free] map_withInfo_reindexed [OF st, of 0]
    by (simp add: reindexed_def)
  have take: "T = take (nat (dedupMaxArticles config)) (sortArticlesByDate ?U)"
    using limit by (simp add: T sliceTo_def)
  have "successively (\<lambda>x y. dateCompare x y \<le> 0) T"
    unfolding take by (rule successively_take) (rule sortArticlesByDate_ordered)
  then have "successively (\<lambda>x y. dateCompare x y \<le> 0) (reindexed T)"
    by (rule successively_same_dates [rotated 2]) (simp_all add: reindexed_dates)
  then have sorted: "sortArticlesByDate (reindexed T) = reindexed T"
    unfolding sortArticlesByDate_def by (rule sortBy_sorted)
  have "length (reindexed T) \<le> nat (dedupMaxArticles config)"
    by (simp add: reindexed_dates(1)) (simp add: take)
  then have "sliceTo (dedupMaxArticles config) (reindexed T) = reindexed T"
    using limit by (simp add: sliceTo_def)
  then show ?thesis by (simp add: run sorted)
qed

text \<open>The two runs on small inputs, under three configurations.\<close>

lemma first_run_default:
  "deduplicateArticles exampleRuntime noVars [chipNote, robotNote]
     = [withInfo exampleRuntime 1 robotNote, withInfo exampleRuntime 0 chipNote]"
  by code_simp

lemma second_run_default:
  "deduplicateArticles exampleRuntime noVars
      [withInfo exampleRuntime 1 robotNote, withInfo exampleRuntime 0 chipNote]
     = [withInfo exampleRuntime 0 robotNote, withInfo exampleRuntime 1 chipNote]"
  by code_simp

lemma first_run_negative_limit:
  "deduplicateArticles exampleRuntime negativeLimitVars [robotNote, chipNote]
     = [withInfo exampleRuntime 0 robotNote]"
  by code_simp

lemma second_run_negative_limit:
  "deduplicateArticles exampleRuntime negativeLimitVars [withInfo exampleRuntime 0 robotNote] = []"
  by code_simp

lemma first_run_negative_threshold:
  "deduplicateArticles exampleRuntime negativeThresholdVars [chipNoteWithBody, robotNote]
     = [withInfo exampleRuntime 1 robotNote, withInfo exampleRuntime 0 chipNoteWithBody]"
  by code_simp

lemma second_run_negative_threshold:
  "deduplicateArticles exampleRuntime negativeThresholdVars
      [withInfo exampleRuntime 1 robotNote, withInfo exampleRuntime 0 chipNoteWithBody]
     = [withInfo exampleRuntime 0 robotNote]"
  by code_simp




end
